theory Spec2Isabelle
  imports Complex_Main "HOL-Library.Word" "HOL-Library.Log_Nat"
begin

section \<open>JavaScript values and strings\<close>

text \<open>
  The quiz server (\<^verbatim>\<open>src/server.js\<close>) is one Express handler,
  \<^verbatim>\<open>POST /api/generate-quiz\<close>, present in two variants in the source file. It is
  modelled as a function from the provider (the awaited completion call) and the request
  body to the HTTP response and the list of provider calls issued.

  A JavaScript string is a sequence of UTF-16 code units, so \<open>jstring\<close> is a list of
  16-bit words; \<open>js\<close> embeds an ASCII literal.
\<close>

type_synonym jschar = "16 word"
type_synonym jstring = "jschar list"

definition js :: "string \<Rightarrow> jstring" where
  "js s = map of_char s"

subsection \<open>Numbers\<close>

text \<open>
  A JavaScript number is an IEEE 754 double: a finite value, which is kept as the
  rational it denotes, an infinity or \<^verbatim>\<open>NaN\<close>. The two zeros are one value here: the
  handler never divides, so nothing it computes tells them apart. \<open>Fin x\<close> is a double
  when \<open>round_double\<close> leaves \<open>x\<close> as it is; the literals \<^verbatim>\<open>JSON.parse\<close> reads
  and the results of the operators are rounded, so they are doubles.
\<close>

datatype jsnum = Fin rat | PInfinity | NInfinity | NaN

text \<open>
  Rounding to the nearest double, ties to the even significand. For \<open>x\<close> other than
  zero the significand has 53 bits, so the unit in the last place is two to the power
  \<open>floor_log2 \<bar>x\<bar> - 52\<close>, and never less than two to the power -1074, the least
  subnormal number; a result of magnitude two to the power 1024 or more is an infinity.
\<close>

definition round_even :: "rat \<Rightarrow> int" where
  "round_even y =
     (let f = \<lfloor>y\<rfloor>; d = y - of_int f
      in if d < 1 / 2 then f else if 1 / 2 < d then f + 1 else if even f then f else f + 1)"

definition floor_log2 :: "rat \<Rightarrow> int" where
  "floor_log2 x = (if 1 \<le> x then bitlen \<lfloor>x\<rfloor> - 1 else - bitlen (\<lceil>1 / x\<rceil> - 1))"

definition pow2 :: "int \<Rightarrow> rat" where
  "pow2 e = (if 0 \<le> e then 2 ^ nat e else 1 / 2 ^ nat (- e))"

definition overflow :: "rat \<Rightarrow> jsnum" where
  "overflow r =
     (if 2 ^ 1024 \<le> r then PInfinity else if r \<le> - (2 ^ 1024) then NInfinity else Fin r)"

definition round_double :: "rat \<Rightarrow> jsnum" where
  "round_double x =
     (if x = 0 then Fin 0
      else
        (let e = max (floor_log2 \<bar>x\<bar> - 52) (- 1074)
         in overflow (of_int (round_even (x / pow2 e)) * pow2 e)))"

text \<open>
  The operators the handler applies to numbers: \<^verbatim>\<open>+\<close>, \<^verbatim>\<open>-\<close>, \<^verbatim>\<open>*\<close>,
  \<^verbatim>\<open><\<close> and \<^verbatim>\<open>Math.min\<close>. The exact result of finite operands is rounded.
\<close>

fun js_add :: "jsnum \<Rightarrow> jsnum \<Rightarrow> jsnum" where
  "js_add NaN b = NaN"
| "js_add a NaN = NaN"
| "js_add (Fin x) (Fin y) = round_double (x + y)"
| "js_add PInfinity NInfinity = NaN"
| "js_add NInfinity PInfinity = NaN"
| "js_add PInfinity b = PInfinity"
| "js_add a PInfinity = PInfinity"
| "js_add NInfinity b = NInfinity"
| "js_add a NInfinity = NInfinity"

fun js_neg :: "jsnum \<Rightarrow> jsnum" where
  "js_neg (Fin x) = Fin (- x)"
| "js_neg PInfinity = NInfinity"
| "js_neg NInfinity = PInfinity"
| "js_neg NaN = NaN"

definition js_sub :: "jsnum \<Rightarrow> jsnum \<Rightarrow> jsnum" where
  "js_sub a b = js_add a (js_neg b)"

fun js_mul :: "jsnum \<Rightarrow> jsnum \<Rightarrow> jsnum" where
  "js_mul NaN b = NaN"
| "js_mul a NaN = NaN"
| "js_mul (Fin x) (Fin y) = round_double (x * y)"
| "js_mul (Fin x) PInfinity = (if x = 0 then NaN else if 0 < x then PInfinity else NInfinity)"
| "js_mul (Fin x) NInfinity = (if x = 0 then NaN else if 0 < x then NInfinity else PInfinity)"
| "js_mul PInfinity (Fin y) = (if y = 0 then NaN else if 0 < y then PInfinity else NInfinity)"
| "js_mul NInfinity (Fin y) = (if y = 0 then NaN else if 0 < y then NInfinity else PInfinity)"
| "js_mul PInfinity PInfinity = PInfinity"
| "js_mul PInfinity NInfinity = NInfinity"
| "js_mul NInfinity PInfinity = NInfinity"
| "js_mul NInfinity NInfinity = PInfinity"

fun js_lt :: "jsnum \<Rightarrow> jsnum \<Rightarrow> bool" where
  "js_lt NaN b = False"
| "js_lt a NaN = False"
| "js_lt (Fin x) (Fin y) = (x < y)"
| "js_lt PInfinity b = False"
| "js_lt a NInfinity = False"
| "js_lt NInfinity b = True"
| "js_lt a PInfinity = True"

fun js_min :: "jsnum \<Rightarrow> jsnum \<Rightarrow> jsnum" where
  "js_min NaN b = NaN"
| "js_min a NaN = NaN"
| "js_min a b = (if js_lt b a then b else a)"

subsection \<open>Values\<close>

text \<open>
  The values \<^verbatim>\<open>JSON.parse\<close> builds, and \<^verbatim>\<open>undefined\<close> for the result of
  reading a property that is not there. An object lists its own properties with their
  values, each key once.
\<close>

datatype jsv =
    JUndefined
  | JNull
  | JBool bool
  | JNum jsnum
  | JStr jstring
  | JArr "jsv list"
  | JObj "(jstring \<times> jsv) list"

text \<open>\<^verbatim>\<open>ToBoolean\<close>: what \<^verbatim>\<open>!x\<close> and \<^verbatim>\<open>x || y\<close> test.\<close>

fun truthy :: "jsv \<Rightarrow> bool" where
  "truthy JUndefined = False"
| "truthy JNull = False"
| "truthy (JBool b) = b"
| "truthy (JNum n) = (n \<noteq> Fin 0 \<and> n \<noteq> NaN)"
| "truthy (JStr s) = (s \<noteq> [])"
| "truthy (JArr xs) = True"
| "truthy (JObj kvs) = True"

text \<open>\<^verbatim>\<open>a || b\<close> on values already evaluated (both operands of every use are pure).\<close>

definition js_or :: "jsv \<Rightarrow> jsv \<Rightarrow> jsv" where
  "js_or a b = (if truthy a then a else b)"

fun isArray :: "jsv \<Rightarrow> bool" where
  "isArray (JArr xs) = True"
| "isArray v = False"

section \<open>Cleaning the provider's reply (lines 83-94 and 273-284)\<close>

text \<open>
  \<^verbatim>\<open>String.prototype.trim\<close> removes the code units of ECMA-262's WhiteSpace and
  LineTerminator productions from both ends.
\<close>

definition is_white_space :: "jschar \<Rightarrow> bool" where
  "is_white_space c \<longleftrightarrow>
     c = 0x09 \<or> c = 0x0A \<or> c = 0x0B \<or> c = 0x0C \<or> c = 0x0D \<or> c = 0x20 \<or> c = 0xA0 \<or>
     c = 0x1680 \<or> (0x2000 \<le> c \<and> c \<le> 0x200A) \<or> c = 0x2028 \<or> c = 0x2029 \<or>
     c = 0x202F \<or> c = 0x205F \<or> c = 0x3000 \<or> c = 0xFEFF"

definition js_trim :: "jstring \<Rightarrow> jstring" where
  "js_trim s = rev (dropWhile is_white_space (rev (dropWhile is_white_space s)))"

definition startsWith :: "jstring \<Rightarrow> jstring \<Rightarrow> bool" where
  "startsWith s p \<longleftrightarrow> take (length p) s = p"

text \<open>
  \<^verbatim>\<open>s.replace(/LIT\n?/, '')\<close> for a non-empty literal \<open>lit\<close>: the leftmost occurrence
  of the literal goes, with the line feed after it when there is one.
\<close>

fun replace_open :: "jstring \<Rightarrow> jstring \<Rightarrow> jstring" where
  "replace_open lit [] = []"
| "replace_open lit (c # cs) =
     (if startsWith (c # cs) lit
      then (case drop (length lit) (c # cs) of
              [] \<Rightarrow> []
            | d # ds \<Rightarrow> if d = 0x0A then ds else d # ds)
      else c # replace_open lit cs)"

text \<open>
  \<^verbatim>\<open>s.replace(/\n?```$/, '')\<close>: without the \<^verbatim>\<open>m\<close> flag \<^verbatim>\<open>$\<close> is the end of
  the input, so the leftmost match starts where what is left of the string is exactly
  a line feed and three backticks, or exactly three backticks.
\<close>

fun replace_close :: "jstring \<Rightarrow> jstring" where
  "replace_close [] = []"
| "replace_close (c # cs) =
     (if c # cs = [0x0A, 0x60, 0x60, 0x60] \<or> c # cs = [0x60, 0x60, 0x60]
      then []
      else c # replace_close cs)"

text \<open>The two \<^verbatim>\<open>if\<close> statements run one after the other, the second on the first's result.\<close>

definition clean_response :: "jstring \<Rightarrow> jstring" where
  "clean_response content =
     (let response = js_trim content;
          response = (if startsWith response (js ''```json'')
                      then replace_close (replace_open (js ''```json'') response)
                      else response);
          response = (if startsWith response (js ''```'')
                      then replace_close (replace_open (js ''```'') response)
                      else response)
      in response)"

section \<open>\<^verbatim>\<open>JSON.parse\<close>\<close>

text \<open>
  \<^verbatim>\<open>JSON.parse\<close> is the platform's. It is modelled after the JSON grammar of ECMA-404
  that ECMA-262 prescribes for it: a lexer, then a pushdown recogniser that builds the
  value. \<open>None\<close> is the \<^verbatim>\<open>SyntaxError\<close>.
\<close>

datatype token =
    TLBrace | TRBrace | TLBracket | TRBracket | TColon | TComma
  | TString jstring | TNumber jsnum | TTrue | TFalse | TNull

definition is_json_ws :: "jschar \<Rightarrow> bool" where
  "is_json_ws c \<longleftrightarrow> c = 0x20 \<or> c = 0x09 \<or> c = 0x0A \<or> c = 0x0D"

definition is_digit :: "jschar \<Rightarrow> bool" where
  "is_digit c \<longleftrightarrow> 0x30 \<le> c \<and> c \<le> 0x39"

definition digit_val :: "jschar \<Rightarrow> nat" where
  "digit_val c = unat c - 48"

definition digits_val :: "jstring \<Rightarrow> nat" where
  "digits_val ds = foldl (\<lambda>a d. 10 * a + digit_val d) 0 ds"

definition hex_val :: "jschar \<Rightarrow> nat option" where
  "hex_val c =
     (if 0x30 \<le> c \<and> c \<le> 0x39 then Some (unat c - 48)
      else if 0x41 \<le> c \<and> c \<le> 0x46 then Some (unat c - 55)
      else if 0x61 \<le> c \<and> c \<le> 0x66 then Some (unat c - 87)
      else None)"

definition hex4 :: "jschar \<Rightarrow> jschar \<Rightarrow> jschar \<Rightarrow> jschar \<Rightarrow> jschar option" where
  "hex4 a b c d =
     (case (hex_val a, hex_val b, hex_val c, hex_val d) of
        (Some p, Some q, Some r, Some s) \<Rightarrow> Some (of_nat (((p * 16 + q) * 16 + r) * 16 + s))
      | _ \<Rightarrow> None)"

text \<open>The single-character escapes: quote, backslash, slash, b, f, n, r, t.\<close>

definition escape :: "jschar \<Rightarrow> jschar option" where
  "escape e =
     (if e = 0x22 then Some 0x22
      else if e = 0x5C then Some 0x5C
      else if e = 0x2F then Some 0x2F
      else if e = 0x62 then Some 0x08
      else if e = 0x66 then Some 0x0C
      else if e = 0x6E then Some 0x0A
      else if e = 0x72 then Some 0x0D
      else if e = 0x74 then Some 0x09
      else None)"

text \<open>
  The characters of a string after its opening quote: the decoded string and the input
  after the closing quote. Control characters below U+0020 must be escaped.
\<close>

fun lex_string :: "jstring \<Rightarrow> (jstring \<times> jstring) option" where
  "lex_string [] = None"
| "lex_string (c # cs) =
     (if c = 0x22 then Some ([], cs)
      else if c < 0x20 then None
      else if c = 0x5C then
        (case cs of
           [] \<Rightarrow> None
         | e # es \<Rightarrow>
             if e = 0x75 then
               (case es of
                  h1 # h2 # h3 # h4 # rest \<Rightarrow>
                    (case hex4 h1 h2 h3 h4 of
                       None \<Rightarrow> None
                     | Some u \<Rightarrow>
                         (case lex_string rest of
                            None \<Rightarrow> None
                          | Some (s, r) \<Rightarrow> Some (u # s, r)))
                | _ \<Rightarrow> None)
             else
               (case escape e of
                  None \<Rightarrow> None
                | Some x \<Rightarrow>
                    (case lex_string es of
                       None \<Rightarrow> None
                     | Some (s, r) \<Rightarrow> Some (x # s, r))))
      else
        (case lex_string cs of
           None \<Rightarrow> None
         | Some (s, r) \<Rightarrow> Some (c # s, r)))"

text \<open>
  A number: an optional minus, an integer part without a leading zero, an optional
  fraction, an optional exponent. The value of the literal is rounded to a double.
\<close>

definition lex_int :: "jstring \<Rightarrow> (jstring \<times> jstring) option" where
  "lex_int s =
     (let ip = takeWhile is_digit s
      in if ip = [] \<or> (1 < length ip \<and> hd ip = 0x30) then None
         else Some (ip, dropWhile is_digit s))"

definition lex_frac :: "jstring \<Rightarrow> (jstring \<times> jstring) option" where
  "lex_frac s =
     (case s of
        [] \<Rightarrow> Some ([], [])
      | c # cs \<Rightarrow>
          if c = 0x2E
          then (if takeWhile is_digit cs = [] then None
                else Some (takeWhile is_digit cs, dropWhile is_digit cs))
          else Some ([], s))"

definition lex_exp_digits :: "bool \<Rightarrow> jstring \<Rightarrow> (int \<times> jstring) option" where
  "lex_exp_digits neg s =
     (if takeWhile is_digit s = [] then None
      else Some (if neg then - int (digits_val (takeWhile is_digit s))
                 else int (digits_val (takeWhile is_digit s)),
                 dropWhile is_digit s))"

definition lex_exp :: "jstring \<Rightarrow> (int \<times> jstring) option" where
  "lex_exp s =
     (case s of
        [] \<Rightarrow> Some (0, [])
      | c # cs \<Rightarrow>
          if c = 0x65 \<or> c = 0x45
          then (case cs of
                  [] \<Rightarrow> None
                | d # ds \<Rightarrow>
                    if d = 0x2D then lex_exp_digits True ds
                    else if d = 0x2B then lex_exp_digits False ds
                    else lex_exp_digits False cs)
          else Some (0, s))"

definition number_value :: "bool \<Rightarrow> jstring \<Rightarrow> jstring \<Rightarrow> int \<Rightarrow> rat" where
  "number_value neg ip fp ex =
     (let m = (of_nat (digits_val (ip @ fp)) :: rat);
          e = ex - int (length fp);
          v = (if 0 \<le> e then m * 10 ^ nat e else m / 10 ^ nat (- e))
      in if neg then - v else v)"

definition lex_unsigned :: "bool \<Rightarrow> jstring \<Rightarrow> (jsnum \<times> jstring) option" where
  "lex_unsigned neg s =
     (case lex_int s of
        None \<Rightarrow> None
      | Some (ip, s2) \<Rightarrow>
          (case lex_frac s2 of
             None \<Rightarrow> None
           | Some (fp, s3) \<Rightarrow>
               (case lex_exp s3 of
                  None \<Rightarrow> None
                | Some (ex, s4) \<Rightarrow> Some (round_double (number_value neg ip fp ex), s4))))"

definition lex_number :: "jstring \<Rightarrow> (jsnum \<times> jstring) option" where
  "lex_number s =
     (case s of
        [] \<Rightarrow> None
      | c # cs \<Rightarrow> if c = 0x2D then lex_unsigned True cs else lex_unsigned False s)"

definition cons_tok :: "token \<Rightarrow> token list option \<Rightarrow> token list option" where
  "cons_tok t r = (case r of None \<Rightarrow> None | Some ts \<Rightarrow> Some (t # ts))"

text \<open>Every sub-lexer consumes input, which is what makes the lexer terminate.\<close>

lemma lex_string_cases:
  assumes "lex_string (c # cs) = Some (v, r)"
  shows "(c = 0x22 \<and> r = cs) \<or>
         (\<exists>s'. lex_string cs = Some (s', r)) \<or>
         (\<exists>e es s'. cs = e # es \<and> lex_string es = Some (s', r)) \<or>
         (\<exists>e h1 h2 h3 h4 rest s'.
            cs = e # h1 # h2 # h3 # h4 # rest \<and> lex_string rest = Some (s', r))"
  using assms
  apply (subst (asm) lex_string.simps(2))
  apply (simp del: lex_string.simps split: if_splits list.splits option.splits prod.splits)
  done

lemma lex_string_length: "lex_string s = Some (v, r) \<Longrightarrow> length r < length s"
proof (induction "length s" arbitrary: s v r rule: less_induct)
  case less
  show ?case
  proof (cases s)
    case Nil
    with less.prems show ?thesis by simp
  next
    case (Cons c cs)
    from lex_string_cases [OF less.prems [unfolded Cons]]
    consider (quote) "r = cs"
      | (plain) s' where "lex_string cs = Some (s', r)"
      | (esc) e es s' where "cs = e # es" "lex_string es = Some (s', r)"
      | (uni) e h1 h2 h3 h4 rest s' where "cs = e # h1 # h2 # h3 # h4 # rest"
          "lex_string rest = Some (s', r)"
      by blast
    then show ?thesis
    proof cases
      case quote
      with Cons show ?thesis by simp
    next
      case plain
      have "length r < length cs"
        by (rule less.hyps [OF _ plain]) (simp add: Cons)
      with Cons show ?thesis by simp
    next
      case esc
      have "length r < length es"
        by (rule less.hyps [OF _ esc(2)]) (simp add: Cons esc(1))
      with Cons esc(1) show ?thesis by simp
    next
      case uni
      have "length r < length rest"
        by (rule less.hyps [OF _ uni(2)]) (simp add: Cons uni(1))
      with Cons uni(1) show ?thesis by simp
    qed
  qed
qed

lemma dropWhile_shorter: "takeWhile P xs \<noteq> [] \<Longrightarrow> length (dropWhile P xs) < length xs"
  by (cases xs) (auto split: if_splits intro: le_imp_less_Suc length_dropWhile_le)

lemma lex_int_length: "lex_int s = Some (ip, r) \<Longrightarrow> length r < length s"
  by (auto simp: lex_int_def Let_def dropWhile_shorter split: if_splits)

lemma lex_frac_length: "lex_frac s = Some (fp, r) \<Longrightarrow> length r \<le> length s"
  by (auto simp: lex_frac_def le_SucI length_dropWhile_le split: list.splits if_splits)

lemma lex_exp_digits_length: "lex_exp_digits neg s = Some (e, r) \<Longrightarrow> length r \<le> length s"
  by (auto simp: lex_exp_digits_def length_dropWhile_le split: if_splits)

lemma lex_exp_length: "lex_exp s = Some (e, r) \<Longrightarrow> length r \<le> length s"
  by (auto simp: lex_exp_def split: list.splits if_splits
      dest!: lex_exp_digits_length)

lemma lex_unsigned_length:
  assumes "lex_unsigned neg s = Some (v, r)"
  shows "length r < length s"
proof -
  from assms obtain ip s2 fp s3 ex where
    "lex_int s = Some (ip, s2)" "lex_frac s2 = Some (fp, s3)" "lex_exp s3 = Some (ex, r)"
    by (auto simp: lex_unsigned_def split: option.splits)
  then have "length s2 < length s" "length s3 \<le> length s2" "length r \<le> length s3"
    by (auto dest: lex_int_length lex_frac_length lex_exp_length)
  then show ?thesis by linarith
qed

lemma lex_number_length: "lex_number s = Some (v, r) \<Longrightarrow> length r < length s"
  by (auto simp: lex_number_def less_SucI split: list.splits if_splits
      dest!: lex_unsigned_length)

text \<open>
  The lexer: white space between tokens is skipped; the six structural characters, a
  string, a number, or one of the three literal names.
\<close>

function lex :: "jstring \<Rightarrow> token list option" where
  "lex [] = Some []"
| "lex (c # cs) =
     (if is_json_ws c then lex cs
      else if c = 0x7B then cons_tok TLBrace (lex cs)
      else if c = 0x7D then cons_tok TRBrace (lex cs)
      else if c = 0x5B then cons_tok TLBracket (lex cs)
      else if c = 0x5D then cons_tok TRBracket (lex cs)
      else if c = 0x3A then cons_tok TColon (lex cs)
      else if c = 0x2C then cons_tok TComma (lex cs)
      else if c = 0x22 then
        (case lex_string cs of
           None \<Rightarrow> None
         | Some (s, r) \<Rightarrow> cons_tok (TString s) (lex r))
      else if c = 0x2D \<or> is_digit c then
        (case lex_number (c # cs) of
           None \<Rightarrow> None
         | Some (n, r) \<Rightarrow> cons_tok (TNumber n) (lex r))
      else if startsWith (c # cs) (js ''true'') then cons_tok TTrue (lex (drop 4 (c # cs)))
      else if startsWith (c # cs) (js ''false'') then cons_tok TFalse (lex (drop 5 (c # cs)))
      else if startsWith (c # cs) (js ''null'') then cons_tok TNull (lex (drop 4 (c # cs)))
      else None)"
  by pat_completeness auto
termination
proof (relation "measure length")
  show "wf (measure length)" by simp
next
  fix c cs x2 x y
  assume "lex_string cs = Some x2" "(x, y) = x2"
  then show "(y, c # cs) \<in> measure length"
    using lex_string_length [of cs x y] by simp
next
  fix c cs x2 x y
  assume "lex_number (c # cs) = Some x2" "(x, y) = x2"
  then show "(y, c # cs) \<in> measure length"
    using lex_number_length [of "c # cs" x y] by simp
qed simp_all

text \<open>
  The recogniser reads the tokens with a stack of the arrays and objects that are open.
  Defining a property a second time replaces its value (the last duplicate wins).
\<close>

fun set_prop :: "jstring \<Rightarrow> jsv \<Rightarrow> (jstring \<times> jsv) list \<Rightarrow> (jstring \<times> jsv) list" where
  "set_prop k v [] = [(k, v)]"
| "set_prop k v ((k', v') # kvs) =
     (if k' = k then (k', v) # kvs else (k', v') # set_prop k v kvs)"

datatype frame =
    FArr "jsv list"
  | FObj "(jstring \<times> jsv) list"
  | FKey "(jstring \<times> jsv) list" jstring

datatype expect = EValue | EFirst | EAfter | EKey | EColon | EDone jsv

type_synonym pstate = "expect \<times> frame list"

fun put :: "jsv \<Rightarrow> frame list \<Rightarrow> pstate option" where
  "put v [] = Some (EDone v, [])"
| "put v (FArr es # st) = Some (EAfter, FArr (es @ [v]) # st)"
| "put v (FKey ms k # st) = Some (EAfter, FObj (set_prop k v ms) # st)"
| "put v (FObj ms # st) = None"

fun open_value :: "token \<Rightarrow> frame list \<Rightarrow> pstate option" where
  "open_value TLBracket st = Some (EFirst, FArr [] # st)"
| "open_value TLBrace st = Some (EFirst, FObj [] # st)"
| "open_value (TString s) st = put (JStr s) st"
| "open_value (TNumber n) st = put (JNum n) st"
| "open_value TTrue st = put (JBool True) st"
| "open_value TFalse st = put (JBool False) st"
| "open_value TNull st = put JNull st"
| "open_value t st = None"

fun step :: "pstate \<Rightarrow> token \<Rightarrow> pstate option" where
  "step (EValue, st) t = open_value t st"
| "step (EFirst, FArr es # st) t =
     (case t of TRBracket \<Rightarrow> put (JArr es) st | _ \<Rightarrow> open_value t (FArr es # st))"
| "step (EFirst, FObj ms # st) t =
     (case t of
        TRBrace \<Rightarrow> put (JObj ms) st
      | TString k \<Rightarrow> Some (EColon, FKey ms k # st)
      | _ \<Rightarrow> None)"
| "step (EAfter, FArr es # st) t =
     (case t of
        TComma \<Rightarrow> Some (EValue, FArr es # st)
      | TRBracket \<Rightarrow> put (JArr es) st
      | _ \<Rightarrow> None)"
| "step (EAfter, FObj ms # st) t =
     (case t of
        TComma \<Rightarrow> Some (EKey, FObj ms # st)
      | TRBrace \<Rightarrow> put (JObj ms) st
      | _ \<Rightarrow> None)"
| "step (EKey, FObj ms # st) t =
     (case t of TString k \<Rightarrow> Some (EColon, FKey ms k # st) | _ \<Rightarrow> None)"
| "step (EColon, st) t = (case t of TColon \<Rightarrow> Some (EValue, st) | _ \<Rightarrow> None)"
| "step s t = None"

fun run :: "pstate \<Rightarrow> token list \<Rightarrow> jsv option" where
  "run s [] = (case s of (EDone v, []) \<Rightarrow> Some v | _ \<Rightarrow> None)"
| "run s (t # ts) = (case step s t of None \<Rightarrow> None | Some s' \<Rightarrow> run s' ts)"

definition JSON_parse :: "jstring \<Rightarrow> jsv option" where
  "JSON_parse text = (case lex text of None \<Rightarrow> None | Some ts \<Rightarrow> run (EValue, []) ts)"

section \<open>The handler\<close>

text \<open>
  The request body, after \<^verbatim>\<open>express.json()\<close>. The model takes the bodies of the
  wire contract: each field is absent (\<open>None\<close>, \<^verbatim>\<open>undefined\<close> after destructuring)
  or has its documented type, a string for \<^verbatim>\<open>topic\<close> and a number for the other
  three. Bodies with fields of other JSON types are outside the model.
\<close>

record request_body =
  req_topic :: "jstring option"
  req_numQuestions :: "jsnum option"
  req_batch :: "jsnum option"
  req_totalQuestions :: "jsnum option"

record http_response =
  status :: nat
  body :: jsv

text \<open>
  The one call to the completion provider. The prompt is a fixed template for each
  variant; the call is recorded with the model's name and the values the template
  interpolates. What the \<^verbatim>\<open>await\<close> and line 83 give back is either the trimmed-to-be
  text \<^verbatim>\<open>completion.choices[0].message.content\<close>, or an exception with its message
  (the call rejects, or the completion has no such text and reading it throws).
\<close>

record provider_call =
  model :: jstring
  prompt_limitedQuestions :: jsnum
  prompt_topic :: jstring
  prompt_batch :: jsnum
  prompt_startingId :: jsnum
  prompt_lastId :: jsnum

datatype provider_result = Rejected jstring | Content jstring

type_synonym provider = "provider_call \<Rightarrow> provider_result"

text \<open>What is thrown inside the \<^verbatim>\<open>try\<close> block, and the \<^verbatim>\<open>message\<close> the catch reports.\<close>

datatype js_error =
    ProviderError jstring
  | InvalidQuestionFormat
  | TypeError jstring jstring

fun error_message :: "js_error \<Rightarrow> jstring" where
  "error_message (ProviderError m) = m"
| "error_message InvalidQuestionFormat = js ''Invalid question format received''"
| "error_message (TypeError base p) =
     js ''Cannot read properties of '' @ base @ js '' (reading '' @ [0x27] @ p @ [0x27] @ js '')''"

text \<open>
  \<^verbatim>\<open>q.p\<close> for the eight property names the handler reads, none of which a
  prototype of a JSON value defines: reading from \<^verbatim>\<open>null\<close> throws, an object gives
  its own property, everything else gives \<^verbatim>\<open>undefined\<close>.
\<close>

fun get_prop :: "jsv \<Rightarrow> jstring \<Rightarrow> js_error + jsv" where
  "get_prop JNull p = Inl (TypeError (js ''null'') p)"
| "get_prop JUndefined p = Inl (TypeError (js ''undefined'') p)"
| "get_prop (JObj kvs) p = Inr (case map_of kvs p of None \<Rightarrow> JUndefined | Some v \<Rightarrow> v)"
| "get_prop v p = Inr JUndefined"

definition bind_err :: "'e + 'a \<Rightarrow> ('a \<Rightarrow> 'e + 'b) \<Rightarrow> 'e + 'b" where
  "bind_err x f = (case x of Inl e \<Rightarrow> Inl e | Inr a \<Rightarrow> f a)"

text \<open>Line 34: \<^verbatim>\<open>const startingId = (batch - 1) * 10 + 1\<close>.\<close>

definition startingId :: "jsnum \<Rightarrow> jsnum" where
  "startingId batch = js_add (js_mul (js_sub batch (Fin 1)) (Fin 10)) (Fin 1)"

text \<open>
  Lines 130-139 (and 320-329, the same text): the arrow function given to
  \<^verbatim>\<open>questions.map\<close>, for the element \<open>q\<close> at \<open>index\<close>.
\<close>

definition validate_question :: "jstring \<Rightarrow> jsnum \<Rightarrow> nat \<Rightarrow> jsv \<Rightarrow> js_error + jsv" where
  "validate_question topic sid index q =
     bind_err (get_prop q (js ''id'')) (\<lambda>q_id.
     bind_err (get_prop q (js ''question'')) (\<lambda>q_question.
     bind_err (get_prop q (js ''options'')) (\<lambda>q_options.
     bind_err (get_prop q (js ''correctAnswers'')) (\<lambda>q_correctAnswers.
     bind_err (get_prop q (js ''multipleChoice'')) (\<lambda>q_multipleChoice.
     bind_err (get_prop q (js ''difficulty'')) (\<lambda>q_difficulty.
     bind_err (get_prop q (js ''explanation'')) (\<lambda>q_explanation.
     bind_err (get_prop q (js ''category'')) (\<lambda>q_category.
       Inr (JObj
         [(js ''id'', js_or q_id (JNum (js_add sid (Fin (of_nat index))))),
          (js ''question'', js_or q_question (JStr [])),
          (js ''options'', if isArray q_options then q_options else JArr []),
          (js ''correctAnswers'',
             if isArray q_correctAnswers then q_correctAnswers else JArr [JNum (Fin 0)]),
          (js ''multipleChoice'', js_or q_multipleChoice (JBool False)),
          (js ''difficulty'', js_or q_difficulty (JStr (js ''medium''))),
          (js ''explanation'', js_or q_explanation (JStr [])),
          (js ''category'', js_or q_category (JStr topic))])))))))))"

text \<open>\<^verbatim>\<open>questions.map((q, index) => ...)\<close>: the first element that throws ends the map.\<close>

fun map_from :: "jstring \<Rightarrow> jsnum \<Rightarrow> nat \<Rightarrow> jsv list \<Rightarrow> js_error + jsv list" where
  "map_from topic sid index [] = Inr []"
| "map_from topic sid index (q # qs) =
     bind_err (validate_question topic sid index q) (\<lambda>r.
     bind_err (map_from topic sid (Suc index) qs) (\<lambda>rs. Inr (r # rs)))"

definition validatedQuestions :: "jstring \<Rightarrow> jsnum \<Rightarrow> jsv list \<Rightarrow> js_error + jsv list" where
  "validatedQuestions topic sid questions = map_from topic sid 0 questions"

text \<open>Lines 107-121: the fallback of the first variant.\<close>

definition fallback1 :: "jstring \<Rightarrow> jsv" where
  "fallback1 topic =
     JArr [JObj
       [(js ''id'', JNum (Fin 1)),
        (js ''question'', JStr (js ''What is a key concept in '' @ topic @ js ''?'')),
        (js ''options'', JArr
           [JStr (js ''Basic understanding''),
            JStr (js ''Advanced application''),
            JStr (js ''Practical implementation''),
            JStr (js ''Theoretical foundation'')]),
        (js ''correctAnswers'', JArr [JNum (Fin 0)]),
        (js ''multipleChoice'', JBool False),
        (js ''difficulty'', JStr (js ''medium'')),
        (js ''explanation'',
           JStr (js ''This is a fundamental concept that requires understanding.'')),
        (js ''category'', JStr topic)]]"

text \<open>Lines 297-311: the fallback of the second variant.\<close>

definition fallback2 :: "jstring \<Rightarrow> jsnum \<Rightarrow> jsv" where
  "fallback2 topic sid =
     JArr [JObj
       [(js ''id'', JNum sid),
        (js ''question'', JStr (js ''In a production '' @ topic @
           js '' environment, what is the most critical factor when implementing a new feature under high traffic conditions?'')),
        (js ''options'', JArr
           [JStr (js ''Performance impact analysis and load testing''),
            JStr (js ''Code review and documentation''),
            JStr (js ''Feature flag implementation and gradual rollout''),
            JStr (js ''Database schema migration strategy'')]),
        (js ''correctAnswers'', JArr [JNum (Fin 2)]),
        (js ''multipleChoice'', JBool False),
        (js ''difficulty'', JStr (js ''hard'')),
        (js ''explanation'',
           JStr (js ''Feature flags allow safe deployment and quick rollback in production environments, minimizing risk during high traffic.'')),
        (js ''category'', JStr topic)]]"

text \<open>Lines 25-27: the 400 response of the input validation.\<close>

definition bad_request :: http_response where
  "bad_request =
     \<lparr>status = 400,
      body = JObj [(js ''error'', JStr (js ''Topic and number of questions are required''))]\<rparr>"

text \<open>Lines 151-157: the catch-all.\<close>

definition server_error :: "js_error \<Rightarrow> http_response" where
  "server_error e =
     \<lparr>status = 500,
      body = JObj
        [(js ''error'', JStr (js ''Failed to generate quiz questions'')),
         (js ''details'', JStr (error_message e))]\<rparr>"

text \<open>
  Lines 141-149: the body given to \<^verbatim>\<open>res.json\<close>, which answers with status 200.
\<close>

definition success_response :: "jstring \<Rightarrow> jsnum \<Rightarrow> jsnum \<Rightarrow> jsv list \<Rightarrow> http_response" where
  "success_response topic batch totalQuestions vqs =
     \<lparr>status = 200,
      body = JObj
        [(js ''success'', JBool True),
         (js ''questions'', JArr vqs),
         (js ''topic'', JStr topic),
         (js ''batch'', JNum batch),
         (js ''questionsInBatch'', JNum (Fin (of_nat (length vqs)))),
         (js ''totalQuestions'', JNum totalQuestions),
         (js ''hasMoreBatches'', JBool (js_lt (js_mul batch (Fin 10)) totalQuestions))]\<rparr>"

text \<open>
  Lines 124-149, the same in both variants: the structural check, the normalisation and
  the success response.
\<close>

definition respond :: "jstring \<Rightarrow> jsnum \<Rightarrow> jsnum \<Rightarrow> jsv \<Rightarrow> js_error + http_response" where
  "respond topic batch totalQuestions questions =
     (case questions of
        JArr qs \<Rightarrow>
          if length qs = 0 then Inl InvalidQuestionFormat
          else bind_err (validatedQuestions topic (startingId batch) qs) (\<lambda>vqs.
                 Inr (success_response topic batch totalQuestions vqs))
      | _ \<Rightarrow> Inl InvalidQuestionFormat)"

text \<open>
  Line 23, the destructuring defaults: \<^verbatim>\<open>batch = 1\<close> and
  \<^verbatim>\<open>totalQuestions = numQuestions\<close> apply when the field is absent.
\<close>

definition batch_of :: "request_body \<Rightarrow> jsnum" where
  "batch_of req = (case req_batch req of None \<Rightarrow> Fin 1 | Some b \<Rightarrow> b)"

definition totalQuestions_of :: "jsnum \<Rightarrow> request_body \<Rightarrow> jsnum" where
  "totalQuestions_of numQuestions req =
     (case req_totalQuestions req of None \<Rightarrow> numQuestions | Some t \<Rightarrow> t)"

text \<open>
  Lines 30-81: what the first variant sends to the provider
  (\<^verbatim>\<open>limitedQuestions = Math.min(numQuestions, 10)\<close>, and the prompt names the
  questions \<^verbatim>\<open>startingId\<close> to \<^verbatim>\<open>startingId + limitedQuestions - 1\<close>).
\<close>

definition completion_request1 :: "jstring \<Rightarrow> jsnum \<Rightarrow> jsnum \<Rightarrow> provider_call" where
  "completion_request1 topic numQuestions batch =
     (let limitedQuestions = js_min numQuestions (Fin 10)
      in \<lparr>model = js ''gpt-4o'',
          prompt_limitedQuestions = limitedQuestions,
          prompt_topic = topic,
          prompt_batch = batch,
          prompt_startingId = startingId batch,
          prompt_lastId = js_sub (js_add (startingId batch) limitedQuestions) (Fin 1)\<rparr>)"

text \<open>Lines 198-271: the same for the second variant, with its own template and model.\<close>

definition completion_request2 :: "jstring \<Rightarrow> jsnum \<Rightarrow> jsnum \<Rightarrow> provider_call" where
  "completion_request2 topic numQuestions batch =
     (let limitedQuestions = js_min numQuestions (Fin 10)
      in \<lparr>model = js ''gpt-4.1-2025-04-14'',
          prompt_limitedQuestions = limitedQuestions,
          prompt_topic = topic,
          prompt_batch = batch,
          prompt_startingId = startingId batch,
          prompt_lastId = js_sub (js_add (startingId batch) limitedQuestions) (Fin 1)\<rparr>)"

text \<open>
  The \<^verbatim>\<open>try\<close> block of the first variant (lines 22-150): its response or what it
  throws, and the provider calls it made. An absent field is \<^verbatim>\<open>undefined\<close>, which
  \<^verbatim>\<open>!\<close> takes for false like the empty string and zero. The console logging is not
  modelled.
\<close>

definition try_block1 ::
  "provider \<Rightarrow> request_body \<Rightarrow> (js_error + http_response) \<times> provider_call list" where
  "try_block1 provider req =
     (case (req_topic req, req_numQuestions req) of
        (Some topic, Some numQuestions) \<Rightarrow>
          if \<not> truthy (JStr topic) \<or> \<not> truthy (JNum numQuestions) then (Inr bad_request, [])
          else
            (let batch = batch_of req;
                 totalQuestions = totalQuestions_of numQuestions req;
                 call = completion_request1 topic numQuestions batch
             in case provider call of
                  Rejected m \<Rightarrow> (Inl (ProviderError m), [call])
                | Content content \<Rightarrow>
                    (let response = clean_response content;
                         questions =
                           (case JSON_parse response of
                              None \<Rightarrow> fallback1 topic
                            | Some v \<Rightarrow> v)
                     in (respond topic batch totalQuestions questions, [call])))
      | _ \<Rightarrow> (Inr bad_request, []))"

definition handler1 :: "provider \<Rightarrow> request_body \<Rightarrow> http_response \<times> provider_call list" where
  "handler1 provider req =
     (case try_block1 provider req of
        (Inr res, calls) \<Rightarrow> (res, calls)
      | (Inl error, calls) \<Rightarrow> (server_error error, calls))"

text \<open>The second variant (lines 190-347): another model and prompt, another fallback.\<close>

definition try_block2 ::
  "provider \<Rightarrow> request_body \<Rightarrow> (js_error + http_response) \<times> provider_call list" where
  "try_block2 provider req =
     (case (req_topic req, req_numQuestions req) of
        (Some topic, Some numQuestions) \<Rightarrow>
          if \<not> truthy (JStr topic) \<or> \<not> truthy (JNum numQuestions) then (Inr bad_request, [])
          else
            (let batch = batch_of req;
                 totalQuestions = totalQuestions_of numQuestions req;
                 call = completion_request2 topic numQuestions batch
             in case provider call of
                  Rejected m \<Rightarrow> (Inl (ProviderError m), [call])
                | Content content \<Rightarrow>
                    (let response = clean_response content;
                         questions =
                           (case JSON_parse response of
                              None \<Rightarrow> fallback2 topic (startingId batch)
                            | Some v \<Rightarrow> v)
                     in (respond topic batch totalQuestions questions, [call])))
      | _ \<Rightarrow> (Inr bad_request, []))"

definition handler2 :: "provider \<Rightarrow> request_body \<Rightarrow> http_response \<times> provider_call list" where
  "handler2 provider req =
     (case try_block2 provider req of
        (Inr res, calls) \<Rightarrow> (res, calls)
      | (Inl error, calls) \<Rightarrow> (server_error error, calls))"

section \<open>Reading a response\<close>

text \<open>
  Observers for stating properties: the property \<open>name\<close> of an object
  (\<^verbatim>\<open>undefined\<close> when there is none), and a reply inside a Markdown fence.
\<close>

definition field :: "jsv \<Rightarrow> string \<Rightarrow> jsv" where
  "field v name = (case get_prop v (js name) of Inl e \<Rightarrow> JUndefined | Inr x \<Rightarrow> x)"

definition fenced_json :: "jstring \<Rightarrow> jstring" where
  "fenced_json t = js ''```json'' @ [0x0A] @ t @ [0x0A] @ js ''```''"

definition fenced_bare :: "jstring \<Rightarrow> jstring" where
  "fenced_bare t = js ''```'' @ [0x0A] @ t @ [0x0A] @ js ''```''"

definition questions_of :: "http_response \<Rightarrow> jsv list" where
  "questions_of res = (case field (body res) ''questions'' of JArr qs \<Rightarrow> qs | _ \<Rightarrow> [])"

text \<open>What the catch makes of the \<^verbatim>\<open>try\<close> block's outcome.\<close>

definition finish :: "js_error + http_response \<Rightarrow> http_response" where
  "finish r = (case r of Inl e \<Rightarrow> server_error e | Inr res \<Rightarrow> res)"

text \<open>The record the arrow function builds from an element that is not \<^verbatim>\<open>null\<close>.\<close>

definition record_of :: "jstring \<Rightarrow> jsnum \<Rightarrow> nat \<Rightarrow> jsv \<Rightarrow> jsv" where
  "record_of topic sid index q =
     JObj
       [(js ''id'', js_or (field q ''id'') (JNum (js_add sid (Fin (of_nat index))))),
        (js ''question'', js_or (field q ''question'') (JStr [])),
        (js ''options'', if isArray (field q ''options'') then field q ''options'' else JArr []),
        (js ''correctAnswers'',
           if isArray (field q ''correctAnswers'') then field q ''correctAnswers''
           else JArr [JNum (Fin 0)]),
        (js ''multipleChoice'', js_or (field q ''multipleChoice'') (JBool False)),
        (js ''difficulty'', js_or (field q ''difficulty'') (JStr (js ''medium''))),
        (js ''explanation'', js_or (field q ''explanation'') (JStr [])),
        (js ''category'', js_or (field q ''category'') (JStr topic))]"

text \<open>Invariant of the recogniser: no array under construction holds \<^verbatim>\<open>undefined\<close>.\<close>

fun elements_defined :: "jsv \<Rightarrow> bool" where
  "elements_defined (JArr es) = (JUndefined \<notin> set es)"
| "elements_defined v = True"

fun frame_defined :: "frame \<Rightarrow> bool" where
  "frame_defined (FArr es) = (JUndefined \<notin> set es)"
| "frame_defined f = True"

fun state_defined :: "pstate \<Rightarrow> bool" where
  "state_defined (EDone v, st) = (elements_defined v \<and> list_all frame_defined st)"
| "state_defined (e, st) = list_all frame_defined st"

section \<open>Basic facts\<close>

lemma bind_err_simps [simp]:
  "bind_err (Inl e) f = Inl e"
  "bind_err (Inr a) f = f a"
  by (simp_all add: bind_err_def)

lemma finish_simps [simp]:
  "finish (Inl e) = server_error e"
  "finish (Inr res) = res"
  by (simp_all add: finish_def)

lemma status_simps [simp]:
  "status bad_request = 400"
  "status (server_error e) = 500"
  "status (success_response topic b t vqs) = 200"
  by (simp_all add: bad_request_def server_error_def success_response_def)

subsection \<open>Arithmetic on integers below \<open>2\<^sup>5\<^sup>3\<close> is exact\<close>

lemma round_even_of_int [simp]: "round_even (of_int n) = n"
  by (simp add: round_even_def)

lemma pow2_nonpos: "e \<le> 0 \<Longrightarrow> pow2 e = 1 / 2 ^ nat (- e)"
  by (cases "e = 0") (simp_all add: pow2_def)

lemma floor_log2_of_int:
  assumes "0 < a" "a < 2 ^ 53"
  shows "floor_log2 (of_int a) = bitlen a - 1" "0 \<le> bitlen a - 1" "bitlen a - 1 \<le> 52"
proof -
  from assms(1) have "(1::rat) \<le> of_int a"
    by simp
  then show "floor_log2 (of_int a) = bitlen a - 1"
    by (simp add: floor_log2_def)
  from assms(1) have b: "1 \<le> bitlen a"
    using bitlen_eq_zero_iff [of a] bitlen_nonneg [of a] by linarith
  then show "0 \<le> bitlen a - 1"
    by simp
  from bitlen_bounds [OF assms(1)] assms(2) have "(2::int) ^ nat (bitlen a - 1) < 2 ^ 53"
    by linarith
  then have "nat (bitlen a - 1) < 53"
    using power_less_imp_less_exp [of "2::int" "nat (bitlen a - 1)" 53] by simp
  with b show "bitlen a - 1 \<le> 52"
    by linarith
qed

lemma overflow_small:
  assumes "\<bar>r\<bar> < 2 ^ 53"
  shows "overflow r = Fin r"
proof -
  have "(2::rat) ^ 53 < 2 ^ 1024"
    by (rule power_strict_increasing) simp_all
  with assms have "\<not> (2 ^ 1024 \<le> r)" "\<not> (r \<le> - (2 ^ 1024))"
    by linarith+
  then show ?thesis
    by (simp only: overflow_def if_False)
qed

lemma round_double_of_int:
  assumes "\<bar>k\<bar> < 2 ^ 53"
  shows "round_double (of_int k) = Fin (of_int k)"
proof (cases "k = 0")
  case True
  then show ?thesis by (simp add: round_double_def)
next
  case False
  define a where "a = \<bar>k\<bar>"
  from False assms have a: "0 < a" "a < 2 ^ 53"
    by (simp_all add: a_def)
  have abs: "\<bar>of_int k :: rat\<bar> = of_int a"
    by (simp add: a_def)
  define e where "e = bitlen a - 1 - 52"
  from floor_log2_of_int [OF a] have fl: "floor_log2 (of_int a) = bitlen a - 1"
    and e: "e \<le> 0" "- 52 \<le> e"
    by (simp_all add: e_def)
  define n where "n = nat (- e)"
  from e have p: "pow2 e = 1 / 2 ^ n"
    by (simp add: pow2_nonpos n_def)
  have m: "max (floor_log2 \<bar>of_int k :: rat\<bar> - 52) (- 1074) = e"
    using e by (simp add: abs fl e_def)
  have q: "(of_int k :: rat) / pow2 e = of_int (k * 2 ^ n)"
    by (simp add: p)
  have r: "of_int (round_even (of_int k / pow2 e)) * pow2 e = (of_int k :: rat)"
    unfolding q round_even_of_int by (simp add: p)
  have "\<bar>of_int k :: rat\<bar> < 2 ^ 53"
    using assms by (metis of_int_abs of_int_less_numeral_power_cancel_iff)
  then have s: "overflow (of_int k) = Fin (of_int k)"
    by (rule overflow_small)
  from False show ?thesis
    by (simp add: round_double_def Let_def m r s del: of_int_mult of_int_power)
qed

text \<open>Equations for evaluating: the threshold written out, and integers kept as they are.\<close>

lemma overflow_code [code]:
  "overflow r =
     (if 179769313486231590772930519078902473361797697894230657273430081157732675805500963132708477322407536021120113879871393357658789768814416622492847430639474124377767893424865485276302219601246094119453082952085005768838150682342462881473913110540827237163350510684586298239947245938479716304835356329624224137216 \<le> r then PInfinity
      else if r \<le> - 179769313486231590772930519078902473361797697894230657273430081157732675805500963132708477322407536021120113879871393357658789768814416622492847430639474124377767893424865485276302219601246094119453082952085005768838150682342462881473913110540827237163350510684586298239947245938479716304835356329624224137216 then NInfinity
      else Fin r)"
  by (simp add: overflow_def)

lemma round_double_code [code]:
  "round_double x =
     (if x = of_int \<lfloor>x\<rfloor> \<and> \<bar>x\<bar> < 9007199254740992 then Fin x
      else if x = 0 then Fin 0
      else
        (let e = max (floor_log2 \<bar>x\<bar> - 52) (- 1074)
         in overflow (of_int (round_even (x / pow2 e)) * pow2 e)))"
proof (cases "x = of_int \<lfloor>x\<rfloor> \<and> \<bar>x\<bar> < 9007199254740992")
  case True
  define k where "k = \<lfloor>x\<rfloor>"
  from True have xk: "x = of_int k" and "\<bar>x\<bar> < 9007199254740992"
    by (simp_all add: k_def)
  then have "(of_int \<bar>k\<bar> :: rat) < of_int 9007199254740992"
    by simp
  then have "\<bar>k\<bar> < 9007199254740992"
    by (simp only: of_int_less_iff)
  then have "\<bar>k\<bar> < 2 ^ 53"
    by simp
  from round_double_of_int [OF this] True xk show ?thesis
    by simp
next
  case False
  then have c: "(x = of_int \<lfloor>x\<rfloor> \<and> \<bar>x\<bar> < 9007199254740992) = False"
    by blast
  show ?thesis
    unfolding c if_False round_double_def ..
qed

lemma js_add_int:
  "\<bar>a + b\<bar> < 2 ^ 53 \<Longrightarrow> js_add (Fin (of_int a)) (Fin (of_int b)) = Fin (of_int (a + b))"
  using round_double_of_int [of "a + b"] by simp

lemma js_sub_int:
  "\<bar>a - b\<bar> < 2 ^ 53 \<Longrightarrow> js_sub (Fin (of_int a)) (Fin (of_int b)) = Fin (of_int (a - b))"
  using round_double_of_int [of "a - b"] by (simp add: js_sub_def)

lemma js_mul_int:
  "\<bar>a * b\<bar> < 2 ^ 53 \<Longrightarrow> js_mul (Fin (of_int a)) (Fin (of_int b)) = Fin (of_int (a * b))"
  using round_double_of_int [of "a * b"] by simp

lemma startingId_int:
  assumes "\<bar>k\<bar> \<le> 2 ^ 49"
  shows "startingId (Fin (of_int k)) = Fin (of_int ((k - 1) * 10 + 1))"
proof -
  from assms have b: "\<bar>k - 1\<bar> < 2 ^ 53" "\<bar>(k - 1) * 10\<bar> < 2 ^ 53" "\<bar>(k - 1) * 10 + 1\<bar> < 2 ^ 53"
    by simp_all
  from js_sub_int [of k 1] b(1) have 1: "js_sub (Fin (of_int k)) (Fin 1) = Fin (of_int (k - 1))"
    by simp
  from js_mul_int [of "k - 1" 10] b(2)
  have 2: "js_mul (Fin (of_int (k - 1))) (Fin 10) = Fin (of_int ((k - 1) * 10))"
    by simp
  from js_add_int [of "(k - 1) * 10" 1] b(3)
  have 3: "js_add (Fin (of_int ((k - 1) * 10))) (Fin 1) = Fin (of_int ((k - 1) * 10 + 1))"
    by simp
  show ?thesis
    unfolding startingId_def 1 2 3 ..
qed

lemma id_default_int:
  assumes "\<bar>k\<bar> \<le> 2 ^ 49" "i \<le> 2 ^ 32"
  shows "js_add (Fin (of_int ((k - 1) * 10 + 1))) (Fin (of_nat i)) =
         Fin (of_int ((k - 1) * 10 + 1 + int i))"
proof -
  from assms have "\<bar>(k - 1) * 10 + 1 + int i\<bar> < 2 ^ 53"
    by simp
  from js_add_int [OF this] show ?thesis
    by simp
qed

lemma js_or_own_default: "js_or (JNum sid) (JNum (js_add sid (Fin 0))) = JNum sid"
  by (cases sid) (simp_all add: js_or_def round_double_def)

subsection \<open>The recogniser never builds \<^verbatim>\<open>undefined\<close>\<close>

lemma put_defined:
  assumes "put v st = Some s'" "list_all frame_defined st" "v \<noteq> JUndefined" "elements_defined v"
  shows "state_defined s'"
  using assms by (induction v st rule: put.induct) auto

lemma open_value_defined:
  assumes "open_value t st = Some s'" "list_all frame_defined st"
  shows "state_defined s'"
  using assms by (cases t) (auto dest: put_defined)

lemma step_defined:
  assumes "step s t = Some s'" "state_defined s"
  shows "state_defined s'"
  using assms
  by (induction s t rule: step.induct)
     (auto split: token.splits dest: put_defined open_value_defined)

lemma run_defined:
  assumes "run s ts = Some v" "state_defined s"
  shows "elements_defined v"
  using assms
proof (induction ts arbitrary: s)
  case Nil
  then show ?case
    by (cases s) (auto split: expect.splits list.splits)
next
  case (Cons t ts)
  then show ?case
    by (auto split: option.splits dest: step_defined)
qed

lemma JSON_parse_defined: "JSON_parse text = Some (JArr qs) \<Longrightarrow> JUndefined \<notin> set qs"
  using run_defined [of "(EValue, [])" _ "JArr qs"]
  by (auto simp: JSON_parse_def split: option.splits)

subsection \<open>Fences\<close>

lemma js_trim_unchanged:
  assumes "s \<noteq> []" "\<not> is_white_space (hd s)" "\<not> is_white_space (last s)"
  shows "js_trim s = s"
proof -
  from assms have 1: "dropWhile is_white_space s = s"
    by (cases s) auto
  from assms have "rev s \<noteq> []" "\<not> is_white_space (hd (rev s))"
    by (simp_all add: hd_rev)
  then have 2: "dropWhile is_white_space (rev s) = rev s"
    by (cases "rev s") auto
  show ?thesis by (simp add: js_trim_def 1 2)
qed

lemma backtick_not_space: "\<not> is_white_space 0x60"
  by (simp add: is_white_space_def)

lemma fence_values:
  "js ''```'' = [0x60, 0x60, 0x60]"
  "js ''```json'' = [0x60, 0x60, 0x60, 0x6A, 0x73, 0x6F, 0x6E]"
  by (simp_all add: js_def)

lemma js_trim_fenced_json: "js_trim (fenced_json t) = fenced_json t"
  by (rule js_trim_unchanged) (simp_all add: fenced_json_def js_def backtick_not_space)

lemma js_trim_fenced_bare: "js_trim (fenced_bare t) = fenced_bare t"
  by (rule js_trim_unchanged) (simp_all add: fenced_bare_def js_def backtick_not_space)

lemma replace_close_fence: "replace_close (t @ [0x0A, 0x60, 0x60, 0x60]) = t"
  by (induction t) auto

lemma replace_open_json:
  "replace_open (js ''```json'') (fenced_json t) = t @ [0x0A, 0x60, 0x60, 0x60]"
  by (simp add: fenced_json_def js_def startsWith_def)

lemma replace_open_bare:
  "replace_open (js ''```'') (fenced_bare t) = t @ [0x0A, 0x60, 0x60, 0x60]"
  by (simp add: fenced_bare_def js_def startsWith_def)

lemma startsWith_fenced_json: "startsWith (fenced_json t) (js ''```json'')"
  by (simp add: fenced_json_def js_def startsWith_def)

lemma startsWith_fenced_bare:
  "startsWith (fenced_bare t) (js ''```'')" "\<not> startsWith (fenced_bare t) (js ''```json'')"
  by (simp_all add: fenced_bare_def js_def startsWith_def)

lemma startsWith_fence: "startsWith s (js ''```'') \<longleftrightarrow> (\<exists>r. s = [0x60, 0x60, 0x60] @ r)"
proof
  assume "startsWith s (js ''```'')"
  then have "take 3 s = [0x60, 0x60, 0x60]"
    by (simp add: startsWith_def fence_values eval_nat_numeral)
  then have "s = [0x60, 0x60, 0x60] @ drop 3 s"
    by (metis append_take_drop_id)
  then show "\<exists>r. s = [0x60, 0x60, 0x60] @ r" ..
next
  assume "\<exists>r. s = [0x60, 0x60, 0x60] @ r"
  then show "startsWith s (js ''```'')"
    by (auto simp: startsWith_def fence_values)
qed

lemma startsWith_json_imp:
  assumes "startsWith s (js ''```json'')"
  shows "startsWith s (js ''```'')"
proof -
  from assms have "take 7 s = [0x60, 0x60, 0x60, 0x6A, 0x73, 0x6F, 0x6E]"
    by (simp add: startsWith_def fence_values eval_nat_numeral)
  then have "s = [0x60, 0x60, 0x60, 0x6A, 0x73, 0x6F, 0x6E] @ drop 7 s"
    by (metis append_take_drop_id)
  then have "s = [0x60, 0x60, 0x60] @ ([0x6A, 0x73, 0x6F, 0x6E] @ drop 7 s)"
    by simp
  then show ?thesis unfolding startsWith_fence ..
qed

lemma startsWith_trim:
  assumes "startsWith t (js ''```'')"
  shows "startsWith (js_trim t) (js ''```'')"
proof -
  from assms obtain r where t: "t = [0x60, 0x60, 0x60] @ r"
    unfolding startsWith_fence by blast
  have 1: "dropWhile is_white_space t = t"
    by (simp add: t backtick_not_space)
  have "\<exists>r'. dropWhile is_white_space (rev r @ [0x60, 0x60, 0x60]) = r' @ [0x60, 0x60, 0x60]"
    by (cases "\<forall>x\<in>set (rev r). is_white_space x")
       (auto simp: dropWhile_append backtick_not_space)
  then obtain r' where "dropWhile is_white_space (rev t) = r' @ [0x60, 0x60, 0x60]"
    by (auto simp: t)
  then have "js_trim t = [0x60, 0x60, 0x60] @ rev r'"
    by (simp add: js_trim_def 1)
  then show ?thesis unfolding startsWith_fence ..
qed

lemma clean_fenced_json:
  "\<not> startsWith t (js ''```'') \<Longrightarrow> clean_response (fenced_json t) = t"
  by (simp add: clean_response_def js_trim_fenced_json startsWith_fenced_json
      replace_open_json replace_close_fence)

lemma clean_fenced_bare: "clean_response (fenced_bare t) = t"
  by (simp add: clean_response_def js_trim_fenced_bare startsWith_fenced_bare
      replace_open_bare replace_close_fence)

lemma clean_plain:
  "\<not> startsWith (js_trim t) (js ''```'') \<Longrightarrow> clean_response t = js_trim t"
  using startsWith_json_imp [of "js_trim t"] by (auto simp: clean_response_def Let_def)

subsection \<open>The normalisation\<close>

lemma get_prop_field:
  "q \<noteq> JNull \<Longrightarrow> q \<noteq> JUndefined \<Longrightarrow> get_prop q (js name) = Inr (field q name)"
  by (cases q) (simp_all add: field_def)

lemma validate_question_defined:
  "q \<noteq> JNull \<Longrightarrow> q \<noteq> JUndefined \<Longrightarrow>
   validate_question topic sid index q = Inr (record_of topic sid index q)"
  by (simp add: validate_question_def get_prop_field record_of_def)

lemma validate_question_null:
  "validate_question topic sid index JNull = Inl (TypeError (js ''null'') (js ''id''))"
  by (simp add: validate_question_def)

lemma validate_question_undefined:
  "validate_question topic sid index JUndefined =
   Inl (TypeError (js ''undefined'') (js ''id''))"
  by (simp add: validate_question_def)

lemma field_record_of:
  "field (record_of topic sid index q) ''id'' =
     js_or (field q ''id'') (JNum (js_add sid (Fin (of_nat index))))"
  "field (record_of topic sid index q) ''question'' = js_or (field q ''question'') (JStr [])"
  "field (record_of topic sid index q) ''options'' =
     (if isArray (field q ''options'') then field q ''options'' else JArr [])"
  "field (record_of topic sid index q) ''correctAnswers'' =
     (if isArray (field q ''correctAnswers'') then field q ''correctAnswers'' else JArr [JNum (Fin 0)])"
  "field (record_of topic sid index q) ''multipleChoice'' =
     js_or (field q ''multipleChoice'') (JBool False)"
  "field (record_of topic sid index q) ''difficulty'' =
     js_or (field q ''difficulty'') (JStr (js ''medium''))"
  "field (record_of topic sid index q) ''explanation'' = js_or (field q ''explanation'') (JStr [])"
  "field (record_of topic sid index q) ''category'' = js_or (field q ''category'') (JStr topic)"
  by (simp_all add: record_of_def field_def js_def)

lemma js_or_idem: "js_or (js_or a b) b = js_or a b"
  by (simp add: js_or_def)

lemma record_of_idem:
  "record_of topic sid index (record_of topic sid index q) = record_of topic sid index q"
  apply (subst record_of_def)
  apply (simp add: field_record_of js_or_idem)
  apply (simp add: record_of_def)
  done

lemma map_from_Inr:
  "map_from topic sid k qs = Inr vqs \<longleftrightarrow>
   (\<forall>q\<in>set qs. q \<noteq> JNull \<and> q \<noteq> JUndefined) \<and>
   vqs = map (\<lambda>(i, q). record_of topic sid i q) (zip [k..<k + length qs] qs)"
proof (induction qs arbitrary: k vqs)
  case Nil
  show ?case by auto
next
  case (Cons q qs)
  have up: "[k..<k + length (q # qs)] = k # [Suc k..<Suc k + length qs]"
    by (simp add: upt_rec)
  show ?case
  proof (cases "q = JNull \<or> q = JUndefined")
    case True
    then show ?thesis
      by (auto simp: validate_question_null validate_question_undefined)
  next
    case False
    then have vq: "validate_question topic sid k q = Inr (record_of topic sid k q)"
      by (simp add: validate_question_defined)
    show ?thesis
    proof (cases "map_from topic sid (Suc k) qs")
      case (Inl e)
      with Cons.IH [of "Suc k"] have "\<not> (\<forall>q\<in>set qs. q \<noteq> JNull \<and> q \<noteq> JUndefined)"
        by auto
      with Inl vq show ?thesis by auto
    next
      case (Inr rs)
      with Cons.IH [of "Suc k" rs] False vq show ?thesis
        unfolding up by auto
    qed
  qed
qed

lemma validatedQuestions_Inr:
  "validatedQuestions topic sid qs = Inr vqs \<longleftrightarrow>
   (\<forall>q\<in>set qs. q \<noteq> JNull \<and> q \<noteq> JUndefined) \<and>
   vqs = map (\<lambda>(i, q). record_of topic sid i q) (zip [0..<length qs] qs)"
  using map_from_Inr [of topic sid 0 qs vqs] by (simp add: validatedQuestions_def)

lemma validatedQuestions_nth:
  assumes "validatedQuestions topic sid qs = Inr vqs"
  shows "length vqs = length qs"
    and "i < length qs \<Longrightarrow> vqs ! i = record_of topic sid i (qs ! i)"
    and "i < length qs \<Longrightarrow> qs ! i \<noteq> JNull \<and> qs ! i \<noteq> JUndefined"
  using assms by (auto simp: validatedQuestions_Inr)

subsection \<open>The handlers, case by case\<close>

lemma handler1_invalid:
  assumes "req_topic req = None \<or> req_topic req = Some [] \<or>
           req_numQuestions req = None \<or>
      (\<exists>n. req_numQuestions req = Some n \<and> \<not> truthy (JNum n))"
  shows "handler1 provider req = (bad_request, [])"
  using assms
  by (auto simp: handler1_def try_block1_def split: option.splits)

lemma handler2_invalid:
  assumes "req_topic req = None \<or> req_topic req = Some [] \<or>
           req_numQuestions req = None \<or>
      (\<exists>n. req_numQuestions req = Some n \<and> \<not> truthy (JNum n))"
  shows "handler2 provider req = (bad_request, [])"
  using assms
  by (auto simp: handler2_def try_block2_def split: option.splits)

lemma handler1_valid:
  assumes "req_topic req = Some topic" "topic \<noteq> []" "req_numQuestions req = Some n" "truthy (JNum n)"
  shows "handler1 provider req =
     (case provider (completion_request1 topic n (batch_of req)) of
        Rejected m \<Rightarrow> server_error (ProviderError m)
      | Content c \<Rightarrow>
          finish (respond topic (batch_of req) (totalQuestions_of n req)
            (case JSON_parse (clean_response c) of None \<Rightarrow> fallback1 topic | Some v \<Rightarrow> v)),
      [completion_request1 topic n (batch_of req)])"
  using assms
  by (simp add: handler1_def try_block1_def finish_def Let_def
      split: provider_result.splits sum.splits)

lemma handler2_valid:
  assumes "req_topic req = Some topic" "topic \<noteq> []" "req_numQuestions req = Some n" "truthy (JNum n)"
  shows "handler2 provider req =
     (case provider (completion_request2 topic n (batch_of req)) of
        Rejected m \<Rightarrow> server_error (ProviderError m)
      | Content c \<Rightarrow>
          finish (respond topic (batch_of req) (totalQuestions_of n req)
            (case JSON_parse (clean_response c) of
               None \<Rightarrow> fallback2 topic (startingId (batch_of req)) | Some v \<Rightarrow> v)),
      [completion_request2 topic n (batch_of req)])"
  using assms
  by (simp add: handler2_def try_block2_def finish_def Let_def
      split: provider_result.splits sum.splits)

lemma respond_not_array: "\<not> isArray v \<or> v = JArr [] \<Longrightarrow> respond topic b t v = Inl InvalidQuestionFormat"
  by (cases v) (auto simp: respond_def)

lemma respond_array:
  "qs \<noteq> [] \<Longrightarrow> respond topic b t (JArr qs) =
     bind_err (validatedQuestions topic (startingId b) qs)
       (\<lambda>vqs. Inr (success_response topic b t vqs))"
  by (simp add: respond_def)

lemma respond_Inr:
  assumes "respond topic b t v = Inr res"
  obtains qs vqs where "v = JArr qs" "qs \<noteq> []"
    "validatedQuestions topic (startingId b) qs = Inr vqs"
    "res = success_response topic b t vqs"
  using assms
  by (cases v) (auto simp: respond_def bind_err_def split: if_splits sum.splits)

lemma field_success_response:
  "field (body (success_response topic b t vqs)) ''success'' = JBool True"
  "field (body (success_response topic b t vqs)) ''questions'' = JArr vqs"
  "field (body (success_response topic b t vqs)) ''topic'' = JStr topic"
  "field (body (success_response topic b t vqs)) ''batch'' = JNum b"
  "field (body (success_response topic b t vqs)) ''questionsInBatch'' =
     JNum (Fin (of_nat (length vqs)))"
  "field (body (success_response topic b t vqs)) ''totalQuestions'' = JNum t"
  "field (body (success_response topic b t vqs)) ''hasMoreBatches'' =
     JBool (js_lt (js_mul b (Fin 10)) t)"
  by (simp_all add: success_response_def field_def js_def)

lemma questions_of_success [simp]: "questions_of (success_response topic b t vqs) = vqs"
  by (simp add: questions_of_def field_success_response)

lemma status_finish_200:
  assumes "status (finish (respond topic b t v)) = 200"
  obtains qs vqs where "v = JArr qs" "qs \<noteq> []"
    "validatedQuestions topic (startingId b) qs = Inr vqs"
    "finish (respond topic b t v) = success_response topic b t vqs"
proof (cases "respond topic b t v")
  case (Inl e)
  with assms show ?thesis by simp
next
  case (Inr res)
  from respond_Inr [OF Inr] obtain qs vqs where
    v: "v = JArr qs" "qs \<noteq> []" "validatedQuestions topic (startingId b) qs = Inr vqs"
    and res: "res = success_response topic b t vqs"
    by blast
  from Inr res have "finish (respond topic b t v) = success_response topic b t vqs"
    by simp
  with v show ?thesis by (rule that)
qed

section \<open>The claims\<close>

subsection \<open>Input validation\<close>

text \<open>
  C4, as the code has it. The check \<^verbatim>\<open>!topic || !numQuestions\<close> tests presence: a request
  whose topic is absent or empty, or whose \<^verbatim>\<open>numQuestions\<close> is absent or zero, is
  answered by both variants with status 400 and the message that topic and number of
  questions are required, and no provider call is issued.
\<close>

theorem missing_input_rejected:
  assumes "req_topic req = None \<or> req_topic req = Some [] \<or>
           req_numQuestions req = None \<or> req_numQuestions req = Some (Fin 0)"
  shows "handler1 provider req = (bad_request, []) \<and>
         handler2 provider req = (bad_request, []) \<and>
         status bad_request = 400 \<and>
         field (body bad_request) ''error'' =
           JStr (js ''Topic and number of questions are required'')"
proof -
  have "field (body bad_request) ''error'' =
          JStr (js ''Topic and number of questions are required'')"
    by (simp add: bad_request_def field_def)
  moreover from assms have "req_topic req = None \<or> req_topic req = Some [] \<or>
      req_numQuestions req = None \<or>
      (\<exists>n. req_numQuestions req = Some n \<and> \<not> truthy (JNum n))"
    by auto
  note handler1_invalid [OF this] handler2_invalid [OF this]
  ultimately show ?thesis
    by simp
qed

text \<open>Witness: an empty topic for the first variant, zero questions for the second.\<close>

theorem missing_input_rejected_witness:
  "handler1 (\<lambda>call. Content (js ''[{}]''))
     \<lparr>req_topic = Some [], req_numQuestions = None, req_batch = None,
      req_totalQuestions = None\<rparr> = (bad_request, []) \<and>
   handler2 (\<lambda>call. Content (js ''[{}]''))
     \<lparr>req_topic = Some (js ''graphs''), req_numQuestions = Some (Fin 0), req_batch = Some (Fin 2),
      req_totalQuestions = Some (Fin 25)\<rparr> = (bad_request, [])"
  using
    missing_input_rejected [of
      "\<lparr>req_topic = Some [], req_numQuestions = None, req_batch = None,
        req_totalQuestions = None\<rparr>" "\<lambda>call. Content (js ''[{}]'')"]
    missing_input_rejected [of
      "\<lparr>req_topic = Some (js ''graphs''), req_numQuestions = Some (Fin 0), req_batch = Some (Fin 2),
        req_totalQuestions = Some (Fin 25)\<rparr>" "\<lambda>call. Content (js ''[{}]'')"]
  by simp

text \<open>
  C4 as stated fails for a negative \<^verbatim>\<open>numQuestions\<close>: \<^verbatim>\<open>!(-1)\<close> is false, so the
  request \<^verbatim>\<open>{topic: "graphs", numQuestions: -1}\<close> passes the check, the provider is
  called, and with the reply \<^verbatim>\<open>[{}]\<close> the response is a 200.
\<close>

theorem negative_numQuestions_reaches_provider:
  "status (fst (handler1 (\<lambda>call. Content (js ''[{}]''))
     \<lparr>req_topic = Some (js ''graphs''), req_numQuestions = Some (Fin (- 1)), req_batch = None,
      req_totalQuestions = None\<rparr>)) = 200 \<and>
   snd (handler1 (\<lambda>call. Content (js ''[{}]''))
     \<lparr>req_topic = Some (js ''graphs''), req_numQuestions = Some (Fin (- 1)), req_batch = None,
      req_totalQuestions = None\<rparr>) = [completion_request1 (js ''graphs'') (Fin (- 1)) (Fin 1)] \<and>
   status (fst (handler2 (\<lambda>call. Content (js ''[{}]''))
     \<lparr>req_topic = Some (js ''graphs''), req_numQuestions = Some (Fin (- 1)), req_batch = None,
      req_totalQuestions = None\<rparr>)) = 200 \<and>
   snd (handler2 (\<lambda>call. Content (js ''[{}]''))
     \<lparr>req_topic = Some (js ''graphs''), req_numQuestions = Some (Fin (- 1)), req_batch = None,
      req_totalQuestions = None\<rparr>) = [completion_request2 (js ''graphs'') (Fin (- 1)) (Fin 1)]"
  by code_simp

subsection \<open>Structural validation\<close>

text \<open>
  C5. When the request passes the input validation and the cleaned reply parses as JSON
  to a value that is not an array, or to the empty array, both variants answer with
  status 500, and the \<^verbatim>\<open>details\<close> of the body are the message
  \<^verbatim>\<open>Invalid question format received\<close>.
\<close>

theorem invalid_question_format_is_500:
  assumes "req_topic req = Some topic" "topic \<noteq> []"
    and "req_numQuestions req = Some n" "truthy (JNum n)"
    and "provider (completion_request1 topic n (batch_of req)) = Content content"
    and "provider (completion_request2 topic n (batch_of req)) = Content content"
    and "JSON_parse (clean_response content) = Some v"
    and "\<not> isArray v \<or> v = JArr []"
  shows "fst (handler1 provider req) = server_error InvalidQuestionFormat \<and>
         fst (handler2 provider req) = server_error InvalidQuestionFormat \<and>
         status (server_error InvalidQuestionFormat) = 500 \<and>
         field (body (server_error InvalidQuestionFormat)) ''details'' =
           JStr (js ''Invalid question format received'')"
proof -
  have "field (body (server_error InvalidQuestionFormat)) ''details'' =
          JStr (js ''Invalid question format received'')"
    by (simp add: server_error_def field_def js_def)
  moreover have "fst (handler1 provider req) = server_error InvalidQuestionFormat"
    using assms by (simp add: handler1_valid respond_not_array)
  moreover have "fst (handler2 provider req) = server_error InvalidQuestionFormat"
    using assms by (simp add: handler2_valid respond_not_array)
  ultimately show ?thesis by simp
qed

text \<open>Witness: the replies \<^verbatim>\<open>{}\<close> and \<^verbatim>\<open>[]\<close>.\<close>

theorem invalid_question_format_is_500_witness:
  "JSON_parse (clean_response (js ''{}'')) = Some (JObj []) \<and>
   fst (handler1 (\<lambda>call. Content (js ''{}''))
     \<lparr>req_topic = Some (js ''graphs''), req_numQuestions = Some (Fin 25), req_batch = Some (Fin 2),
      req_totalQuestions = Some (Fin 25)\<rparr>) = server_error InvalidQuestionFormat \<and>
   JSON_parse (clean_response (js ''[]'')) = Some (JArr []) \<and>
   fst (handler2 (\<lambda>call. Content (js ''[]''))
     \<lparr>req_topic = Some (js ''graphs''), req_numQuestions = Some (Fin 25), req_batch = Some (Fin 2),
      req_totalQuestions = Some (Fin 25)\<rparr>) = server_error InvalidQuestionFormat"
proof -
  have p1: "JSON_parse (clean_response (js ''{}'')) = Some (JObj [])"
    by code_simp
  have p2: "JSON_parse (clean_response (js ''[]'')) = Some (JArr [])"
    by code_simp
  have g: "js ''graphs'' \<noteq> []"
    by (simp add: js_def)
  note a = invalid_question_format_is_500 [of
      "\<lparr>req_topic = Some (js ''graphs''), req_numQuestions = Some (Fin 25), req_batch = Some (Fin 2),
        req_totalQuestions = Some (Fin 25)\<rparr>" "js ''graphs''" "Fin 25" "\<lambda>call. Content (js ''{}'')"
      "js ''{}''" "JObj []", OF _ g _ _ _ _ p1]
  note b = invalid_question_format_is_500 [of
      "\<lparr>req_topic = Some (js ''graphs''), req_numQuestions = Some (Fin 25), req_batch = Some (Fin 2),
        req_totalQuestions = Some (Fin 25)\<rparr>" "js ''graphs''" "Fin 25" "\<lambda>call. Content (js ''[]'')"
      "js ''[]''" "JArr []", OF _ g _ _ _ _ p2]
  from a b p1 p2 show ?thesis by simp
qed

subsection \<open>The pagination flag\<close>

text \<open>
  C2. In every success response of either variant, \<^verbatim>\<open>hasMoreBatches\<close> is
  \<^verbatim>\<open>batch * 10 < totalQuestions\<close> as JavaScript computes it from the request's own
  \<^verbatim>\<open>batch\<close> (1 when absent) and \<^verbatim>\<open>totalQuestions\<close> (\<^verbatim>\<open>numQuestions\<close> when
  absent), whatever the provider replied and however many questions the response
  carries. For an integer batch of magnitude up to \<open>2\<^sup>4\<^sup>9\<close> and a finite total the
  product is exact, and the flag is the comparison of the numbers themselves.
\<close>

theorem hasMoreBatches_from_request:
  assumes "req_numQuestions req = Some n"
  shows "(status (fst (handler1 provider req)) = 200 \<longrightarrow>
            field (body (fst (handler1 provider req))) ''hasMoreBatches'' =
              JBool (js_lt
                (js_mul (case req_batch req of None \<Rightarrow> Fin 1 | Some b \<Rightarrow> b) (Fin 10))
                (case req_totalQuestions req of None \<Rightarrow> n | Some t \<Rightarrow> t))) \<and>
         (status (fst (handler2 provider req)) = 200 \<longrightarrow>
            field (body (fst (handler2 provider req))) ''hasMoreBatches'' =
              JBool (js_lt
                (js_mul (case req_batch req of None \<Rightarrow> Fin 1 | Some b \<Rightarrow> b) (Fin 10))
                (case req_totalQuestions req of None \<Rightarrow> n | Some t \<Rightarrow> t))) \<and>
         (\<forall>b t. (case req_batch req of None \<Rightarrow> Fin 1 | Some b \<Rightarrow> b) = Fin (of_int b) \<longrightarrow>
            \<bar>b\<bar> \<le> 2 ^ 49 \<longrightarrow>
            (case req_totalQuestions req of None \<Rightarrow> n | Some t \<Rightarrow> t) = Fin t \<longrightarrow>
            js_lt (js_mul (case req_batch req of None \<Rightarrow> Fin 1 | Some b \<Rightarrow> b) (Fin 10))
              (case req_totalQuestions req of None \<Rightarrow> n | Some t \<Rightarrow> t) =
            (of_int b * 10 < t))"
proof -
  let ?flag = "JBool (js_lt (js_mul (batch_of req) (Fin 10)) (totalQuestions_of n req))"
  have more: "status (finish (respond topic (batch_of req) (totalQuestions_of n req) v)) = 200 \<Longrightarrow>
      field (body (finish (respond topic (batch_of req) (totalQuestions_of n req) v)))
        ''hasMoreBatches'' = ?flag" for topic v
    by (erule status_finish_200) (simp add: field_success_response)
  have h: "(status (fst (handler1 provider req)) = 200 \<longrightarrow>
        field (body (fst (handler1 provider req))) ''hasMoreBatches'' = ?flag) \<and>
      (status (fst (handler2 provider req)) = 200 \<longrightarrow>
        field (body (fst (handler2 provider req))) ''hasMoreBatches'' = ?flag)"
  proof (cases "req_topic req = None \<or> req_topic req = Some [] \<or> \<not> truthy (JNum n)")
    case True
    with assms have "req_topic req = None \<or> req_topic req = Some [] \<or>
        req_numQuestions req = None \<or>
        (\<exists>n. req_numQuestions req = Some n \<and> \<not> truthy (JNum n))"
      by auto
    then show ?thesis
      by (simp add: handler1_invalid handler2_invalid)
  next
    case False
    then obtain topic where valid: "req_topic req = Some topic" "topic \<noteq> []" "truthy (JNum n)"
      by auto
    show ?thesis
      using more
      by (simp add: handler1_valid [OF valid(1,2) assms valid(3)]
          handler2_valid [OF valid(1,2) assms valid(3)] split: provider_result.splits)
  qed
  have exact: "js_lt (js_mul (Fin (of_int b)) (Fin 10)) (Fin t) = (of_int b * 10 < t)"
    if "\<bar>b\<bar> \<le> 2 ^ 49" for b :: int and t :: rat
  proof -
    from that have "\<bar>b * 10\<bar> < 2 ^ 53"
      by simp
    from js_mul_int [OF this] show ?thesis
      by simp
  qed
  from h exact show ?thesis
    by (simp add: batch_of_def totalQuestions_of_def)
qed

text \<open>
  Witness: batch 2 of 25 questions with one question delivered; and a batch number
  whose product with ten is rounded up to the total, so that the flag is false.
\<close>

theorem hasMoreBatches_from_request_witness:
  "status (fst (handler1 (\<lambda>call. Content (js ''[{}]''))
     \<lparr>req_topic = Some (js ''graphs''), req_numQuestions = Some (Fin 25),
      req_batch = Some (Fin 2), req_totalQuestions = Some (Fin 25)\<rparr>)) = 200 \<and>
   field (body (fst (handler1 (\<lambda>call. Content (js ''[{}]''))
     \<lparr>req_topic = Some (js ''graphs''), req_numQuestions = Some (Fin 25),
      req_batch = Some (Fin 2), req_totalQuestions = Some (Fin 25)\<rparr>))) ''hasMoreBatches'' =
     JBool True \<and>
   status (fst (handler2 (\<lambda>call. Content (js ''oops''))
     \<lparr>req_topic = Some (js ''graphs''), req_numQuestions = Some (Fin 5),
      req_batch = Some (Fin 9007199254740990),
      req_totalQuestions = Some (Fin 90071992547409904)\<rparr>)) = 200 \<and>
   field (body (fst (handler2 (\<lambda>call. Content (js ''oops''))
     \<lparr>req_topic = Some (js ''graphs''), req_numQuestions = Some (Fin 5),
      req_batch = Some (Fin 9007199254740990),
      req_totalQuestions = Some (Fin 90071992547409904)\<rparr>))) ''hasMoreBatches'' =
     JBool False"
proof -
  let ?r1 = "\<lparr>req_topic = Some (js ''graphs''), req_numQuestions = Some (Fin 25),
    req_batch = Some (Fin 2), req_totalQuestions = Some (Fin 25)\<rparr>"
  let ?r2 = "\<lparr>req_topic = Some (js ''graphs''), req_numQuestions = Some (Fin 5),
    req_batch = Some (Fin 9007199254740990),
    req_totalQuestions = Some (Fin 90071992547409904)\<rparr>"
  have s1: "status (fst (handler1 (\<lambda>call. Content (js ''[{}]'')) ?r1)) = 200"
    by code_simp
  have s2: "status (fst (handler2 (\<lambda>call. Content (js ''oops'')) ?r2)) = 200"
    by code_simp
  have f1: "js_lt (js_mul (Fin 2) (Fin 10)) (Fin 25) = True"
    by code_simp
  have f2: "js_lt (js_mul (Fin 9007199254740990) (Fin 10)) (Fin 90071992547409904) = False"
    by code_simp
  have n1: "req_numQuestions ?r1 = Some (Fin 25)" and n2: "req_numQuestions ?r2 = Some (Fin 5)"
    by simp_all
  from hasMoreBatches_from_request [OF n1, of "\<lambda>call. Content (js ''[{}]'')"] s1
  have a: "field (body (fst (handler1 (\<lambda>call. Content (js ''[{}]'')) ?r1))) ''hasMoreBatches'' =
      JBool (js_lt (js_mul (Fin 2) (Fin 10)) (Fin 25))"
    by simp
  from hasMoreBatches_from_request [OF n2, of "\<lambda>call. Content (js ''oops'')"] s2
  have b: "field (body (fst (handler2 (\<lambda>call. Content (js ''oops'')) ?r2))) ''hasMoreBatches'' =
      JBool (js_lt (js_mul (Fin 9007199254740990) (Fin 10)) (Fin 90071992547409904))"
    by simp
  from s1 s2 a [unfolded f1] b [unfolded f2] show ?thesis
    by (intro conjI)
qed

subsection \<open>The normalisation\<close>

lemma record_of_defined: "record_of topic sid i q \<noteq> JNull \<and> record_of topic sid i q \<noteq> JUndefined"
  by (simp add: record_of_def)

lemma validatedQuestions_idem:
  assumes "validatedQuestions topic sid qs = Inr vqs"
  shows "validatedQuestions topic sid vqs = Inr vqs"
proof -
  note n = validatedQuestions_nth [OF assms]
  have "\<forall>r\<in>set vqs. r \<noteq> JNull \<and> r \<noteq> JUndefined"
  proof
    fix r assume "r \<in> set vqs"
    then obtain i where "i < length vqs" "r = vqs ! i"
      by (auto simp: in_set_conv_nth)
    with n show "r \<noteq> JNull \<and> r \<noteq> JUndefined"
      by (simp add: record_of_defined)
  qed
  moreover have "vqs = map (\<lambda>(i, q). record_of topic sid i q) (zip [0..<length vqs] vqs)"
  proof (rule nth_equalityI)
    show "length vqs = length (map (\<lambda>(i, q). record_of topic sid i q) (zip [0..<length vqs] vqs))"
      by simp
  next
    fix i assume i: "i < length vqs"
    with n have "vqs ! i = record_of topic sid i (qs ! i)" by simp
    then have "record_of topic sid i (vqs ! i) = vqs ! i"
      by (simp add: record_of_idem)
    with i show "vqs ! i = map (\<lambda>(i, q). record_of topic sid i q) (zip [0..<length vqs] vqs) ! i"
      by simp
  qed
  ultimately show ?thesis
    by (simp add: validatedQuestions_Inr)
qed

text \<open>
  C7, as the code has it. Over a decoded array none of whose elements is \<^verbatim>\<open>null\<close>
  the normalisation \<^verbatim>\<open>questions.map(...)\<close> never throws, whatever the elements are
  (objects with any fields, numbers, strings, booleans, arrays), it returns as many
  records as there are elements, and it is idempotent: normalising the records again,
  with the same topic and starting id, gives the same records. Any topic will do.
\<close>

theorem normalisation_total_and_idempotent:
  assumes "JSON_parse text = Some (JArr qs)" "JNull \<notin> set qs"
  shows "\<exists>vqs. validatedQuestions topic sid qs = Inr vqs \<and> length vqs = length qs \<and>
           validatedQuestions topic sid vqs = Inr vqs"
proof -
  from assms JSON_parse_defined [OF assms(1)]
  have "\<forall>q\<in>set qs. q \<noteq> JNull \<and> q \<noteq> JUndefined"
    by auto
  then obtain vqs where v: "validatedQuestions topic sid qs = Inr vqs"
    by (simp add: validatedQuestions_Inr)
  from validatedQuestions_nth(1) [OF v] validatedQuestions_idem [OF v] v
  show ?thesis by blast
qed

text \<open>Witness: an array of an empty object, a number and an array.\<close>

theorem normalisation_total_and_idempotent_witness:
  "JSON_parse (js ''[{}, 7, [null]]'') = Some (JArr [JObj [], JNum (Fin 7), JArr [JNull]]) \<and>
   JNull \<notin> set [JObj [], JNum (Fin 7), JArr [JNull]] \<and>
   (\<exists>vqs. validatedQuestions (js ''graphs'') (Fin 11) [JObj [], JNum (Fin 7), JArr [JNull]] = Inr vqs \<and>
      length vqs = length [JObj [], JNum (Fin 7), JArr [JNull]] \<and>
      validatedQuestions (js ''graphs'') (Fin 11) vqs = Inr vqs)"
proof -
  have p: "JSON_parse (js ''[{}, 7, [null]]'') = Some (JArr [JObj [], JNum (Fin 7), JArr [JNull]])"
    by code_simp
  have n: "JNull \<notin> set [JObj [], JNum (Fin 7), JArr [JNull]]"
    by simp
  from normalisation_total_and_idempotent [OF p n, of "js ''graphs''" "Fin 11"] p n
  show ?thesis by blast
qed

text \<open>
  C7 as stated fails on a \<^verbatim>\<open>null\<close> element: the reply \<^verbatim>\<open>[null]\<close> decodes to a
  non-empty array, reading \<^verbatim>\<open>q.id\<close> of \<^verbatim>\<open>null\<close> throws a TypeError inside the
  map, and both variants answer 500.
\<close>

theorem null_element_throws:
  "JSON_parse (clean_response (js ''[null]'')) = Some (JArr [JNull]) \<and>
   validatedQuestions (js ''graphs'') (startingId (Fin 2)) [JNull] =
     Inl (TypeError (js ''null'') (js ''id'')) \<and>
   fst (handler1 (\<lambda>call. Content (js ''[null]''))
     \<lparr>req_topic = Some (js ''graphs''), req_numQuestions = Some (Fin 25), req_batch = Some (Fin 2),
      req_totalQuestions = Some (Fin 25)\<rparr>) = server_error (TypeError (js ''null'') (js ''id'')) \<and>
   fst (handler2 (\<lambda>call. Content (js ''[null]''))
     \<lparr>req_topic = Some (js ''graphs''), req_numQuestions = Some (Fin 25), req_batch = Some (Fin 2),
      req_totalQuestions = Some (Fin 25)\<rparr>) = server_error (TypeError (js ''null'') (js ''id''))"
  by code_simp

subsection \<open>Question ids\<close>

lemma no_id_field:
  assumes "get_prop q (js ''id'') = Inr JUndefined"
  shows "q \<noteq> JNull" "q \<noteq> JUndefined" "field q ''id'' = JUndefined"
  using assms by (auto simp: field_def)

text \<open>
  C3, as the code has it. Let the request's batch (1 when absent) be an integer \<open>k\<close> of
  magnitude at most \<open>2\<^sup>4\<^sup>9\<close>, so that the double arithmetic is exact. Then
  \<^verbatim>\<open>startingId\<close> is \<^verbatim>\<open>(batch - 1) * 10 + 1\<close>, in the prompt as in the
  normalisation. When the request passes validation and the decoded array is not empty
  and none of its elements supplies an \<^verbatim>\<open>id\<close>, both variants return the same success
  response, with one question for each element, the question at \<open>index\<close> having the id
  \<^verbatim>\<open>startingId + index\<close>. The ids lie between \<^verbatim>\<open>startingId\<close> and
  \<^verbatim>\<open>startingId + 9\<close> when the array has at most ten elements. (No JavaScript array
  has more than \<open>2\<^sup>3\<^sup>2\<close> elements.)
\<close>

theorem ids_count_from_startingId:
  assumes "req_topic req = Some topic" "topic \<noteq> []"
    and "req_numQuestions req = Some n" "truthy (JNum n)"
    and "(case req_batch req of None \<Rightarrow> Fin 1 | Some b \<Rightarrow> b) = Fin (of_int k)"
    and "\<bar>k\<bar> \<le> 2 ^ 49"
    and "provider (completion_request1 topic n (Fin (of_int k))) = Content content"
    and "provider (completion_request2 topic n (Fin (of_int k))) = Content content"
    and "JSON_parse (clean_response content) = Some (JArr qs)" "qs \<noteq> []"
    and "length qs \<le> 2 ^ 32"
    and "\<forall>q\<in>set qs. get_prop q (js ''id'') = Inr JUndefined"
  shows "startingId (Fin (of_int k)) = Fin (of_int ((k - 1) * 10 + 1)) \<and>
         map prompt_startingId (snd (handler1 provider req)) =
           [Fin (of_int ((k - 1) * 10 + 1))] \<and>
         map prompt_startingId (snd (handler2 provider req)) =
           [Fin (of_int ((k - 1) * 10 + 1))] \<and>
         fst (handler2 provider req) = fst (handler1 provider req) \<and>
         status (fst (handler1 provider req)) = 200 \<and>
         length (questions_of (fst (handler1 provider req))) = length qs \<and>
         (\<forall>i<length qs. field (questions_of (fst (handler1 provider req)) ! i) ''id'' =
            JNum (Fin (of_int ((k - 1) * 10 + 1 + int i)))) \<and>
         (length qs \<le> 10 \<longrightarrow>
            (\<forall>q\<in>set (questions_of (fst (handler1 provider req))).
               \<exists>x. field q ''id'' = JNum (Fin (of_int x)) \<and>
                 (k - 1) * 10 + 1 \<le> x \<and> x \<le> (k - 1) * 10 + 1 + 9))"
proof -
  let ?s = "(k - 1) * 10 + 1"
  have batch: "batch_of req = Fin (of_int k)"
    using assms(5) by (simp add: batch_of_def)
  have sid: "startingId (Fin (of_int k)) = Fin (of_int ?s)"
    using assms(6) by (rule startingId_int)
  let ?vqs = "map (\<lambda>(i, q). record_of topic (Fin (of_int ?s)) i q) (zip [0..<length qs] qs)"
  from assms(12) have ok: "\<forall>q\<in>set qs. q \<noteq> JNull \<and> q \<noteq> JUndefined"
    by (auto dest: no_id_field)
  then have v: "validatedQuestions topic (startingId (Fin (of_int k))) qs = Inr ?vqs"
    by (simp add: validatedQuestions_Inr sid)
  have r: "respond topic (Fin (of_int k)) (totalQuestions_of n req) (JArr qs) =
      Inr (success_response topic (Fin (of_int k)) (totalQuestions_of n req) ?vqs)"
    using assms(10) v by (simp add: respond_array)
  have h1: "handler1 provider req =
      (success_response topic (Fin (of_int k)) (totalQuestions_of n req) ?vqs,
       [completion_request1 topic n (Fin (of_int k))])"
    using assms(7,9) r by (simp add: handler1_valid [OF assms(1-4)] batch)
  have h2: "handler2 provider req =
      (success_response topic (Fin (of_int k)) (totalQuestions_of n req) ?vqs,
       [completion_request2 topic n (Fin (of_int k))])"
    using assms(8,9) r by (simp add: handler2_valid [OF assms(1-4)] batch)
  have ids: "field (?vqs ! i) ''id'' = JNum (Fin (of_int (?s + int i)))" if "i < length qs" for i
  proof -
    from that assms(12) have "field (qs ! i) ''id'' = JUndefined"
      by (auto dest: no_id_field)
    moreover from that assms(11) have "i \<le> 2 ^ 32"
      by simp
    note id_default_int [OF assms(6) this]
    ultimately show ?thesis
      using that by (simp add: field_record_of js_or_def)
  qed
  have inrange: "\<exists>x. field q ''id'' = JNum (Fin (of_int x)) \<and> ?s \<le> x \<and> x \<le> ?s + 9"
    if "q \<in> set ?vqs" "length qs \<le> 10" for q
  proof -
    from that(1) obtain i where i: "i < length qs" "q = ?vqs ! i"
      by (auto simp: in_set_conv_nth)
    with that(2) have "?s \<le> ?s + int i" "?s + int i \<le> ?s + 9"
      by simp_all
    with ids [OF i(1)] i(2) show ?thesis
      by blast
  qed
  have "map prompt_startingId (snd (handler1 provider req)) = [Fin (of_int ?s)]"
    by (simp add: h1 completion_request1_def Let_def sid)
  moreover have "map prompt_startingId (snd (handler2 provider req)) = [Fin (of_int ?s)]"
    by (simp add: h2 completion_request2_def Let_def sid)
  moreover have "fst (handler2 provider req) = fst (handler1 provider req)"
    by (simp add: h1 h2)
  moreover have "status (fst (handler1 provider req)) = 200"
    by (simp add: h1)
  moreover have "length (questions_of (fst (handler1 provider req))) = length qs"
    by (simp add: h1)
  moreover have "\<forall>i<length qs. field (questions_of (fst (handler1 provider req)) ! i) ''id'' =
      JNum (Fin (of_int (?s + int i)))"
    using ids by (simp only: h1 fst_conv questions_of_success) blast
  moreover have "length qs \<le> 10 \<longrightarrow>
      (\<forall>q\<in>set (questions_of (fst (handler1 provider req))).
         \<exists>x. field q ''id'' = JNum (Fin (of_int x)) \<and> ?s \<le> x \<and> x \<le> ?s + 9)"
    using inrange by (simp only: h1 fst_conv questions_of_success) blast
  ultimately show ?thesis
    using sid by (intro conjI)
qed

text \<open>Witness: batch 2 and a reply of three empty objects; the third id is 13.\<close>

theorem ids_count_from_startingId_witness:
  "JSON_parse (clean_response (js ''[{},{},{}]'')) = Some (JArr [JObj [], JObj [], JObj []]) \<and>
   startingId (Fin 2) = Fin 11 \<and>
   length (questions_of (fst (handler1 (\<lambda>call. Content (js ''[{},{},{}]''))
     \<lparr>req_topic = Some (js ''graphs''), req_numQuestions = Some (Fin 25),
      req_batch = Some (Fin 2), req_totalQuestions = Some (Fin 25)\<rparr>))) = 3 \<and>
   field (questions_of (fst (handler1 (\<lambda>call. Content (js ''[{},{},{}]''))
     \<lparr>req_topic = Some (js ''graphs''), req_numQuestions = Some (Fin 25),
      req_batch = Some (Fin 2), req_totalQuestions = Some (Fin 25)\<rparr>)) ! 2) ''id'' =
     JNum (Fin 13)"
proof -
  let ?req = "\<lparr>req_topic = Some (js ''graphs''), req_numQuestions = Some (Fin 25),
    req_batch = Some (Fin 2), req_totalQuestions = Some (Fin 25)\<rparr>"
  have p: "JSON_parse (clean_response (js ''[{},{},{}]'')) =
      Some (JArr [JObj [], JObj [], JObj []])"
    by code_simp
  have g: "js ''graphs'' \<noteq> []"
    by (simp add: js_def)
  have t: "req_topic ?req = Some (js ''graphs'')" and q: "req_numQuestions ?req = Some (Fin 25)"
    and z: "truthy (JNum (Fin 25))"
    and b: "(case req_batch ?req of None \<Rightarrow> Fin 1 | Some b \<Rightarrow> b) = Fin (of_int 2)"
    and k: "\<bar>2 :: int\<bar> \<le> 2 ^ 49"
    by simp_all
  have c: "(\<lambda>call. Content x) y = Content x" for x :: jstring and y :: provider_call
    by simp
  have ne: "[JObj [], JObj [], JObj []] \<noteq> []"
    and len: "length [JObj [], JObj [], JObj []] \<le> 2 ^ 32"
    and noid: "\<forall>q\<in>set [JObj [], JObj [], JObj []]. get_prop q (js ''id'') = Inr JUndefined"
    by simp_all
  note a = ids_count_from_startingId [of ?req "js ''graphs''" "Fin 25" 2
      "\<lambda>call. Content (js ''[{},{},{}]'')" "js ''[{},{},{}]''" "[JObj [], JObj [], JObj []]",
      OF t g q z b k c c p ne len noid]
  have "(2 :: nat) < length [JObj [], JObj [], JObj []]"
    by simp
  with a have "field (questions_of (fst (handler1 (\<lambda>call. Content (js ''[{},{},{}]'')) ?req)) ! 2)
      ''id'' = JNum (Fin (of_int ((2 - 1) * 10 + 1 + int 2)))"
    by blast
  moreover from a have "startingId (Fin (of_int 2)) = Fin (of_int ((2 - 1) * 10 + 1))"
    and "length (questions_of (fst (handler1 (\<lambda>call. Content (js ''[{},{},{}]'')) ?req))) =
      length [JObj [], JObj [], JObj []]"
    by blast+
  ultimately show ?thesis
    using p by simp
qed

text \<open>
  C3 as stated fails in two ways. When the provider delivers more than ten elements,
  nothing cuts the decoded array to the batch size: for batch 1 and a reply of eleven
  empty objects the last question gets the id 11, above \<^verbatim>\<open>startingId + 9 = 10\<close>. And
  for a batch number too large for exact arithmetic the ids are rounded: for batch
  \<open>2\<^sup>5\<^sup>3\<close> the \<^verbatim>\<open>startingId\<close> is 90071992547409904, not 90071992547409911, and
  the tenth of ten questions gets the id 90071992547409920.
\<close>

theorem ids_leave_the_batch_range:
  "JSON_parse (clean_response (js ''[{},{},{},{},{},{},{},{},{},{},{}]'')) =
     Some (JArr [JObj [], JObj [], JObj [], JObj [], JObj [], JObj [], JObj [], JObj [],
       JObj [], JObj [], JObj []]) \<and>
   field (questions_of (fst (handler1 (\<lambda>call. Content (js ''[{},{},{},{},{},{},{},{},{},{},{}]''))
     \<lparr>req_topic = Some (js ''graphs''), req_numQuestions = Some (Fin 25),
      req_batch = Some (Fin 1), req_totalQuestions = Some (Fin 25)\<rparr>)) ! 10) ''id'' =
     JNum (Fin 11) \<and>
   startingId (Fin 1) = Fin 1 \<and>
   startingId (Fin 9007199254740992) = Fin 90071992547409904 \<and>
   (9007199254740992 - 1) * 10 + 1 = (90071992547409911 :: int) \<and>
   field (questions_of (fst (handler1 (\<lambda>call. Content (js ''[{},{},{},{},{},{},{},{},{},{}]''))
     \<lparr>req_topic = Some (js ''graphs''), req_numQuestions = Some (Fin 25),
      req_batch = Some (Fin 9007199254740992), req_totalQuestions = Some (Fin 25)\<rparr>)) ! 9)
     ''id'' = JNum (Fin 90071992547409920)"
  by code_simp

subsection \<open>Options and correct answers\<close>

text \<open>
  C9, as the code has it. In every question of a success response of either variant
  \<^verbatim>\<open>options\<close> and \<^verbatim>\<open>correctAnswers\<close> are arrays: the arrow function keeps the
  element's own value when it is an array and otherwise puts \<^verbatim>\<open>[]\<close> for the options
  and \<^verbatim>\<open>[0]\<close> for the correct answers. What the arrays hold is not checked.
\<close>

theorem answers_and_options_are_arrays:
  "(status (fst (handler1 provider req)) = 200 \<longrightarrow>
      (\<forall>q\<in>set (questions_of (fst (handler1 provider req))).
         isArray (field q ''options'') \<and> isArray (field q ''correctAnswers''))) \<and>
   (status (fst (handler2 provider req)) = 200 \<longrightarrow>
      (\<forall>q\<in>set (questions_of (fst (handler2 provider req))).
         isArray (field q ''options'') \<and> isArray (field q ''correctAnswers''))) \<and>
   (\<forall>topic sid index q r. validate_question topic sid index q = Inr r \<longrightarrow>
      field r ''options'' =
        (if isArray (field q ''options'') then field q ''options'' else JArr []) \<and>
      field r ''correctAnswers'' =
        (if isArray (field q ''correctAnswers'') then field q ''correctAnswers''
         else JArr [JNum (Fin 0)]))"
proof -
  have arrays: "\<forall>q\<in>set (questions_of (finish (respond topic b t v))).
      isArray (field q ''options'') \<and> isArray (field q ''correctAnswers'')"
    if "status (finish (respond topic b t v)) = 200" for topic b t v
  proof -
    from that obtain qs vqs where
      v: "validatedQuestions topic (startingId b) qs = Inr vqs"
      and f: "finish (respond topic b t v) = success_response topic b t vqs"
      by (rule status_finish_200)
    show ?thesis
    proof
      fix q assume "q \<in> set (questions_of (finish (respond topic b t v)))"
      with f obtain i where "i < length vqs" "q = vqs ! i"
        by (auto simp: in_set_conv_nth)
      with validatedQuestions_nth [OF v]
      have "q = record_of topic (startingId b) i (qs ! i)" by simp
      then show "isArray (field q ''options'') \<and> isArray (field q ''correctAnswers'')"
        by (simp add: field_record_of)
    qed
  qed
  have h1: "status (fst (handler1 provider req)) = 200 \<longrightarrow>
      (\<forall>q\<in>set (questions_of (fst (handler1 provider req))).
         isArray (field q ''options'') \<and> isArray (field q ''correctAnswers''))"
  proof (cases "req_topic req = None \<or> req_topic req = Some [] \<or>
      req_numQuestions req = None \<or>
      (\<exists>n. req_numQuestions req = Some n \<and> \<not> truthy (JNum n))")
    case True
    then show ?thesis by (simp add: handler1_invalid)
  next
    case False
    then obtain topic n where
      "req_topic req = Some topic" "topic \<noteq> []" "req_numQuestions req = Some n" "truthy (JNum n)"
      by auto
    then show ?thesis
      using arrays by (simp add: handler1_valid split: provider_result.splits)
  qed
  have h2: "status (fst (handler2 provider req)) = 200 \<longrightarrow>
      (\<forall>q\<in>set (questions_of (fst (handler2 provider req))).
         isArray (field q ''options'') \<and> isArray (field q ''correctAnswers''))"
  proof (cases "req_topic req = None \<or> req_topic req = Some [] \<or>
      req_numQuestions req = None \<or>
      (\<exists>n. req_numQuestions req = Some n \<and> \<not> truthy (JNum n))")
    case True
    then show ?thesis by (simp add: handler2_invalid)
  next
    case False
    then obtain topic n where
      "req_topic req = Some topic" "topic \<noteq> []" "req_numQuestions req = Some n" "truthy (JNum n)"
      by auto
    then show ?thesis
      using arrays by (simp add: handler2_valid split: provider_result.splits)
  qed
  have vq: "field r ''options'' =
        (if isArray (field q ''options'') then field q ''options'' else JArr []) \<and>
      field r ''correctAnswers'' =
        (if isArray (field q ''correctAnswers'') then field q ''correctAnswers''
         else JArr [JNum (Fin 0)])"
    if "validate_question topic sid index q = Inr r" for topic sid index q r
  proof (cases "q = JNull \<or> q = JUndefined")
    case True
    with that show ?thesis
      by (auto simp: validate_question_null validate_question_undefined)
  next
    case False
    with that have "r = record_of topic sid index q"
      by (simp add: validate_question_defined)
    then show ?thesis by (simp add: field_record_of)
  qed
  from h1 h2 vq show ?thesis by blast
qed

text \<open>Witness: the reply \<^verbatim>\<open>[{}]\<close>.\<close>

theorem answers_and_options_are_arrays_witness:
  "status (fst (handler1 (\<lambda>call. Content (js ''[{}]''))
     \<lparr>req_topic = Some (js ''graphs''), req_numQuestions = Some (Fin 25), req_batch = Some (Fin 2),
      req_totalQuestions = Some (Fin 25)\<rparr>)) = 200 \<and>
   questions_of (fst (handler1 (\<lambda>call. Content (js ''[{}]''))
     \<lparr>req_topic = Some (js ''graphs''), req_numQuestions = Some (Fin 25), req_batch = Some (Fin 2),
      req_totalQuestions = Some (Fin 25)\<rparr>)) \<noteq> [] \<and>
   list_all (\<lambda>q. isArray (field q ''options'') \<and> isArray (field q ''correctAnswers''))
     (questions_of (fst (handler1 (\<lambda>call. Content (js ''[{}]''))
        \<lparr>req_topic = Some (js ''graphs''), req_numQuestions = Some (Fin 25), req_batch = Some (Fin 2),
         req_totalQuestions = Some (Fin 25)\<rparr>)))"
proof -
  have s: "status (fst (handler1 (\<lambda>call. Content (js ''[{}]''))
     \<lparr>req_topic = Some (js ''graphs''), req_numQuestions = Some (Fin 25), req_batch = Some (Fin 2),
      req_totalQuestions = Some (Fin 25)\<rparr>)) = 200"
    by code_simp
  have ne: "questions_of (fst (handler1 (\<lambda>call. Content (js ''[{}]''))
     \<lparr>req_topic = Some (js ''graphs''), req_numQuestions = Some (Fin 25), req_batch = Some (Fin 2),
      req_totalQuestions = Some (Fin 25)\<rparr>)) \<noteq> []"
    by code_simp
  note a = answers_and_options_are_arrays [of "\<lambda>call. Content (js ''[{}]'')"
      "\<lparr>req_topic = Some (js ''graphs''), req_numQuestions = Some (Fin 25), req_batch = Some (Fin 2),
        req_totalQuestions = Some (Fin 25)\<rparr>"]
  from a s ne show ?thesis
    by (simp add: list_all_iff)
qed

text \<open>
  C9 as stated fails on an element without options and answers: for the reply
  \<^verbatim>\<open>[{}]\<close> the returned question has the options \<^verbatim>\<open>[]\<close> and the correct answers
  \<^verbatim>\<open>[0]\<close>, and 0 is not an index into an empty sequence.
\<close>

theorem default_answer_without_options:
  "status (fst (handler1 (\<lambda>call. Content (js ''[{}]''))
     \<lparr>req_topic = Some (js ''graphs''), req_numQuestions = Some (Fin 25), req_batch = Some (Fin 2),
      req_totalQuestions = Some (Fin 25)\<rparr>)) = 200 \<and>
   field (questions_of (fst (handler1 (\<lambda>call. Content (js ''[{}]''))
     \<lparr>req_topic = Some (js ''graphs''), req_numQuestions = Some (Fin 25), req_batch = Some (Fin 2),
      req_totalQuestions = Some (Fin 25)\<rparr>)) ! 0) ''options'' = JArr [] \<and>
   field (questions_of (fst (handler1 (\<lambda>call. Content (js ''[{}]''))
     \<lparr>req_topic = Some (js ''graphs''), req_numQuestions = Some (Fin 25), req_batch = Some (Fin 2),
      req_totalQuestions = Some (Fin 25)\<rparr>)) ! 0) ''correctAnswers'' = JArr [JNum (Fin 0)]"
  by code_simp

subsection \<open>The fallback\<close>

lemma js_nonempty: "js ''medium'' \<noteq> []" "js ''hard'' \<noteq> []"
  by (simp_all add: js_def)

lemma validatedQuestions_single:
  "q \<noteq> JNull \<Longrightarrow> q \<noteq> JUndefined \<Longrightarrow>
   validatedQuestions topic sid [q] = Inr [record_of topic sid 0 q]"
  by (simp add: validatedQuestions_Inr)

lemma respond_fallback1:
  "finish (respond topic b t (fallback1 topic)) =
     success_response topic b t
       [record_of topic (startingId b) 0 (hd (case fallback1 topic of JArr qs \<Rightarrow> qs))]"
  by (simp add: fallback1_def respond_array validatedQuestions_single)

lemma respond_fallback2:
  "finish (respond topic b t (fallback2 topic sid)) =
     success_response topic b t
       [record_of topic (startingId b) 0 (hd (case fallback2 topic sid of JArr qs \<Rightarrow> qs))]"
  by (simp add: fallback2_def respond_array validatedQuestions_single)

lemma fallback1_fields:
  "field (hd (case fallback1 topic of JArr qs \<Rightarrow> qs)) ''category'' = JStr topic"
  "field (hd (case fallback1 topic of JArr qs \<Rightarrow> qs)) ''difficulty'' = JStr (js ''medium'')"
  "field (hd (case fallback1 topic of JArr qs \<Rightarrow> qs)) ''correctAnswers'' = JArr [JNum (Fin 0)]"
  by (simp_all add: fallback1_def field_def js_def)

lemma fallback2_fields:
  "field (hd (case fallback2 topic sid of JArr qs \<Rightarrow> qs)) ''id'' = JNum sid"
  "field (hd (case fallback2 topic sid of JArr qs \<Rightarrow> qs)) ''category'' = JStr topic"
  "field (hd (case fallback2 topic sid of JArr qs \<Rightarrow> qs)) ''difficulty'' = JStr (js ''hard'')"
  "field (hd (case fallback2 topic sid of JArr qs \<Rightarrow> qs)) ''correctAnswers'' = JArr [JNum (Fin 2)]"
  by (simp_all add: fallback2_def field_def js_def)

text \<open>
  C1, as the code has it. When the request passes validation and the cleaned reply is
  not valid JSON, both variants answer 200 with \<^verbatim>\<open>success: true\<close> and exactly one
  question, whose category is the request's topic. In the first variant that question
  has the difficulty \<^verbatim>\<open>medium\<close> and the correct answers \<^verbatim>\<open>[0]\<close>; in the second
  its id is \<^verbatim>\<open>startingId\<close>, its difficulty \<^verbatim>\<open>hard\<close> and its correct answers
  \<^verbatim>\<open>[2]\<close>. (The id of the first variant's fallback is left out here.)
\<close>

theorem parse_failure_gives_fallback:
  assumes "req_topic req = Some topic" "topic \<noteq> []"
    and "req_numQuestions req = Some n" "truthy (JNum n)"
    and "provider (completion_request1 topic n (batch_of req)) = Content content"
    and "provider (completion_request2 topic n (batch_of req)) = Content content"
    and "JSON_parse (clean_response content) = None"
  shows "status (fst (handler1 provider req)) = 200 \<and>
         field (body (fst (handler1 provider req))) ''success'' = JBool True \<and>
         length (questions_of (fst (handler1 provider req))) = 1 \<and>
         field (questions_of (fst (handler1 provider req)) ! 0) ''category'' = JStr topic \<and>
         field (questions_of (fst (handler1 provider req)) ! 0) ''difficulty'' =
           JStr (js ''medium'') \<and>
         field (questions_of (fst (handler1 provider req)) ! 0) ''correctAnswers'' =
           JArr [JNum (Fin 0)] \<and>
         status (fst (handler2 provider req)) = 200 \<and>
         field (body (fst (handler2 provider req))) ''success'' = JBool True \<and>
         length (questions_of (fst (handler2 provider req))) = 1 \<and>
         field (questions_of (fst (handler2 provider req)) ! 0) ''id'' =
           JNum (startingId (batch_of req)) \<and>
         field (questions_of (fst (handler2 provider req)) ! 0) ''category'' = JStr topic \<and>
         field (questions_of (fst (handler2 provider req)) ! 0) ''difficulty'' =
           JStr (js ''hard'') \<and>
         field (questions_of (fst (handler2 provider req)) ! 0) ''correctAnswers'' =
           JArr [JNum (Fin 2)]"
proof -
  have h1: "fst (handler1 provider req) =
      finish (respond topic (batch_of req) (totalQuestions_of n req) (fallback1 topic))"
    using assms by (simp add: handler1_valid)
  have h2: "fst (handler2 provider req) =
      finish (respond topic (batch_of req) (totalQuestions_of n req)
        (fallback2 topic (startingId (batch_of req))))"
    using assms by (simp add: handler2_valid)
  show ?thesis
    unfolding h1 h2 respond_fallback1 respond_fallback2
    using assms(2)
    by (simp add: field_success_response field_record_of fallback1_fields fallback2_fields
        js_or_own_default js_nonempty) (simp add: js_or_def js_nonempty)
qed

text \<open>Witness: batch 2 and the reply \<^verbatim>\<open>oops\<close>.\<close>

theorem parse_failure_gives_fallback_witness:
  "JSON_parse (clean_response (js ''oops'')) = None \<and>
   status (fst (handler1 (\<lambda>call. Content (js ''oops''))
     \<lparr>req_topic = Some (js ''graphs''), req_numQuestions = Some (Fin 25), req_batch = Some (Fin 2),
      req_totalQuestions = Some (Fin 25)\<rparr>)) = 200 \<and>
   field (questions_of (fst (handler1 (\<lambda>call. Content (js ''oops''))
     \<lparr>req_topic = Some (js ''graphs''), req_numQuestions = Some (Fin 25), req_batch = Some (Fin 2),
      req_totalQuestions = Some (Fin 25)\<rparr>)) ! 0) ''category'' = JStr (js ''graphs'') \<and>
   field (questions_of (fst (handler2 (\<lambda>call. Content (js ''oops''))
     \<lparr>req_topic = Some (js ''graphs''), req_numQuestions = Some (Fin 25), req_batch = Some (Fin 2),
      req_totalQuestions = Some (Fin 25)\<rparr>)) ! 0) ''id'' = JNum (Fin 11)"
proof -
  have p: "JSON_parse (clean_response (js ''oops'')) = None"
    by code_simp
  have g: "js ''graphs'' \<noteq> []"
    by (simp add: js_def)
  note a = parse_failure_gives_fallback [of
      "\<lparr>req_topic = Some (js ''graphs''), req_numQuestions = Some (Fin 25), req_batch = Some (Fin 2),
        req_totalQuestions = Some (Fin 25)\<rparr>" "js ''graphs''" "Fin 25"
      "\<lambda>call. Content (js ''oops'')" "js ''oops''", OF _ g _ _ _ _ p]
  have sid: "startingId (Fin 2) = Fin 11"
    by code_simp
  from a p show ?thesis
    by (simp add: batch_of_def sid)
qed

text \<open>
  C1 as stated fails in both variants. For batch 2 and the reply \<^verbatim>\<open>oops\<close> the first
  variant's fallback keeps its literal id 1, where \<^verbatim>\<open>startingId\<close> is 11; the second
  variant's fallback has the difficulty \<^verbatim>\<open>hard\<close> and the correct answers \<^verbatim>\<open>[2]\<close>.
\<close>

theorem fallback_differs_from_claim:
  "JSON_parse (clean_response (js ''oops'')) = None \<and>
   field (questions_of (fst (handler1 (\<lambda>call. Content (js ''oops''))
     \<lparr>req_topic = Some (js ''graphs''), req_numQuestions = Some (Fin 25), req_batch = Some (Fin 2),
      req_totalQuestions = Some (Fin 25)\<rparr>)) ! 0) ''id'' = JNum (Fin 1) \<and>
   startingId (Fin 2) = Fin 11 \<and>
   field (questions_of (fst (handler2 (\<lambda>call. Content (js ''oops''))
     \<lparr>req_topic = Some (js ''graphs''), req_numQuestions = Some (Fin 25), req_batch = Some (Fin 2),
      req_totalQuestions = Some (Fin 25)\<rparr>)) ! 0) ''difficulty'' = JStr (js ''hard'') \<and>
   field (questions_of (fst (handler2 (\<lambda>call. Content (js ''oops''))
     \<lparr>req_topic = Some (js ''graphs''), req_numQuestions = Some (Fin 25), req_batch = Some (Fin 2),
      req_totalQuestions = Some (Fin 25)\<rparr>)) ! 0) ''correctAnswers'' = JArr [JNum (Fin 2)]"
  by code_simp

text \<open>
  C6, as the code has it. The fallback stands in for the provider's output exactly when
  \<^verbatim>\<open>JSON.parse\<close> throws, and the request then succeeds. A reply that is valid JSON of
  the wrong top-level type is not a decoding failure: it reaches the structural check
  and the request fails with status 500.
\<close>

theorem fallback_only_on_syntax_error:
  assumes "req_topic req = Some topic" "topic \<noteq> []"
    and "req_numQuestions req = Some n" "truthy (JNum n)"
    and "provider (completion_request1 topic n (batch_of req)) = Content content"
    and "provider (completion_request2 topic n (batch_of req)) = Content content"
  shows "(JSON_parse (clean_response content) = None \<longrightarrow>
            fst (handler1 provider req) =
              finish (respond topic (batch_of req) (totalQuestions_of n req) (fallback1 topic)) \<and>
            status (fst (handler1 provider req)) = 200 \<and>
            fst (handler2 provider req) =
              finish (respond topic (batch_of req) (totalQuestions_of n req)
                (fallback2 topic (startingId (batch_of req)))) \<and>
            status (fst (handler2 provider req)) = 200) \<and>
         (\<forall>v. JSON_parse (clean_response content) = Some v \<longrightarrow> \<not> isArray v \<longrightarrow>
            status (fst (handler1 provider req)) = 500 \<and>
            status (fst (handler2 provider req)) = 500)"
  using assms
  by (auto simp: handler1_valid handler2_valid respond_fallback1 respond_fallback2
      respond_not_array)

text \<open>Witness: the reply \<^verbatim>\<open>oops\<close> succeeds, the reply \<^verbatim>\<open>7\<close> fails.\<close>

theorem fallback_only_on_syntax_error_witness:
  "JSON_parse (clean_response (js ''oops'')) = None \<and>
   status (fst (handler1 (\<lambda>call. Content (js ''oops''))
     \<lparr>req_topic = Some (js ''graphs''), req_numQuestions = Some (Fin 25), req_batch = Some (Fin 2),
      req_totalQuestions = Some (Fin 25)\<rparr>)) = 200 \<and>
   JSON_parse (clean_response (js ''7'')) = Some (JNum (Fin 7)) \<and>
   status (fst (handler2 (\<lambda>call. Content (js ''7''))
     \<lparr>req_topic = Some (js ''graphs''), req_numQuestions = Some (Fin 25), req_batch = Some (Fin 2),
      req_totalQuestions = Some (Fin 25)\<rparr>)) = 500"
proof -
  let ?req = "\<lparr>req_topic = Some (js ''graphs''), req_numQuestions = Some (Fin 25),
    req_batch = Some (Fin 2), req_totalQuestions = Some (Fin 25)\<rparr>"
  have p1: "JSON_parse (clean_response (js ''oops'')) = None"
    by code_simp
  have p2: "JSON_parse (clean_response (js ''7'')) = Some (JNum (Fin 7))"
    by code_simp
  have g: "js ''graphs'' \<noteq> []"
    by (simp add: js_def)
  have t: "req_topic ?req = Some (js ''graphs'')" and q: "req_numQuestions ?req = Some (Fin 25)"
    and z: "truthy (JNum (Fin 25))"
    by simp_all
  have c: "(\<lambda>call. Content x) y = Content x" for x :: jstring and y :: provider_call
    by simp
  note a = fallback_only_on_syntax_error [of ?req "js ''graphs''" "Fin 25"
      "\<lambda>call. Content (js ''oops'')" "js ''oops''", OF t g q z c c]
  note b = fallback_only_on_syntax_error [of ?req "js ''graphs''" "Fin 25"
      "\<lambda>call. Content (js ''7'')" "js ''7''", OF t g q z c c]
  from a p1 have s1: "status (fst (handler1 (\<lambda>call. Content (js ''oops'')) ?req)) = 200"
    by blast
  have "\<not> isArray (JNum (Fin 7))"
    by simp
  with b p2 have s2: "status (fst (handler2 (\<lambda>call. Content (js ''7'')) ?req)) = 500"
    by blast
  from p1 s1 p2 s2 show ?thesis
    by (intro conjI)
qed

text \<open>
  C6 as stated fails: the reply \<^verbatim>\<open>{}\<close> decodes to an object, no fallback is
  substituted, and both variants answer 500.
\<close>

theorem wrong_top_level_type_propagates:
  "JSON_parse (clean_response (js ''{}'')) = Some (JObj []) \<and>
   isArray (JObj []) = False \<and>
   status (fst (handler1 (\<lambda>call. Content (js ''{}''))
     \<lparr>req_topic = Some (js ''graphs''), req_numQuestions = Some (Fin 25), req_batch = Some (Fin 2),
      req_totalQuestions = Some (Fin 25)\<rparr>)) = 500 \<and>
   status (fst (handler2 (\<lambda>call. Content (js ''{}''))
     \<lparr>req_topic = Some (js ''graphs''), req_numQuestions = Some (Fin 25), req_batch = Some (Fin 2),
      req_totalQuestions = Some (Fin 25)\<rparr>)) = 500"
  by code_simp

subsection \<open>The two variants\<close>

text \<open>
  C10, as the code has it. For the same request body and the same outcome \<open>r\<close> of the
  provider call, the two variants give the same HTTP response whenever the fallback is
  not used, that is unless \<open>r\<close> is a reply whose cleaned text is not valid JSON.
\<close>

theorem variants_agree_when_reply_parses:
  assumes "\<forall>content. r = Content content \<longrightarrow> JSON_parse (clean_response content) \<noteq> None"
  shows "fst (handler1 (\<lambda>call. r) req) = fst (handler2 (\<lambda>call. r) req)"
proof (cases "req_topic req = None \<or> req_topic req = Some [] \<or>
    req_numQuestions req = None \<or>
      (\<exists>n. req_numQuestions req = Some n \<and> \<not> truthy (JNum n))")
  case True
  then show ?thesis by (simp add: handler1_invalid handler2_invalid)
next
  case False
  then obtain topic n where
    "req_topic req = Some topic" "topic \<noteq> []" "req_numQuestions req = Some n" "truthy (JNum n)"
    by auto
  with assms show ?thesis
    by (cases r) (auto simp: handler1_valid handler2_valid)
qed

text \<open>Witness: the reply \<^verbatim>\<open>[{}]\<close>.\<close>

theorem variants_agree_when_reply_parses_witness:
  "JSON_parse (clean_response (js ''[{}]'')) = Some (JArr [JObj []]) \<and>
   fst (handler1 (\<lambda>call. Content (js ''[{}]''))
     \<lparr>req_topic = Some (js ''graphs''), req_numQuestions = Some (Fin 25), req_batch = Some (Fin 2),
      req_totalQuestions = Some (Fin 25)\<rparr>) =
   fst (handler2 (\<lambda>call. Content (js ''[{}]''))
     \<lparr>req_topic = Some (js ''graphs''), req_numQuestions = Some (Fin 25), req_batch = Some (Fin 2),
      req_totalQuestions = Some (Fin 25)\<rparr>)"
proof -
  have p: "JSON_parse (clean_response (js ''[{}]'')) = Some (JArr [JObj []])"
    by code_simp
  then have "\<forall>content. Content (js ''[{}]'') = Content content \<longrightarrow>
      JSON_parse (clean_response content) \<noteq> None"
    by auto
  from variants_agree_when_reply_parses [OF this] p show ?thesis
    by simp
qed

text \<open>
  C10 as stated fails where the fallbacks differ: for the reply \<^verbatim>\<open>oops\<close> the two
  responses carry different questions.
\<close>

theorem variants_differ_on_fallback:
  "fst (handler1 (\<lambda>call. Content (js ''oops''))
     \<lparr>req_topic = Some (js ''graphs''), req_numQuestions = Some (Fin 25), req_batch = Some (Fin 2),
      req_totalQuestions = Some (Fin 25)\<rparr>) \<noteq>
   fst (handler2 (\<lambda>call. Content (js ''oops''))
     \<lparr>req_topic = Some (js ''graphs''), req_numQuestions = Some (Fin 25), req_batch = Some (Fin 2),
      req_totalQuestions = Some (Fin 25)\<rparr>)"
  by code_simp

subsection \<open>Fenced replies\<close>

lemma handler1_same_decoding:
  assumes "JSON_parse (clean_response c) = JSON_parse (clean_response c')"
  shows "handler1 (\<lambda>call. Content c) req = handler1 (\<lambda>call. Content c') req"
proof (cases "req_topic req = None \<or> req_topic req = Some [] \<or>
    req_numQuestions req = None \<or>
      (\<exists>n. req_numQuestions req = Some n \<and> \<not> truthy (JNum n))")
  case True
  then show ?thesis by (simp add: handler1_invalid)
next
  case False
  then obtain topic n where
    "req_topic req = Some topic" "topic \<noteq> []" "req_numQuestions req = Some n" "truthy (JNum n)"
    by auto
  with assms show ?thesis by (simp add: handler1_valid)
qed

lemma handler2_same_decoding:
  assumes "JSON_parse (clean_response c) = JSON_parse (clean_response c')"
  shows "handler2 (\<lambda>call. Content c) req = handler2 (\<lambda>call. Content c') req"
proof (cases "req_topic req = None \<or> req_topic req = Some [] \<or>
    req_numQuestions req = None \<or>
      (\<exists>n. req_numQuestions req = Some n \<and> \<not> truthy (JNum n))")
  case True
  then show ?thesis by (simp add: handler2_invalid)
next
  case False
  then obtain topic n where
    "req_topic req = Some topic" "topic \<noteq> []" "req_numQuestions req = Some n" "truthy (JNum n)"
    by auto
  with assms show ?thesis by (simp add: handler2_valid)
qed

text \<open>
  C8, as the code has it. A reply \<open>t\<close> inside a \<^verbatim>\<open>```json\<close> fence or a bare
  \<^verbatim>\<open>```\<close> fence (each marker on a line of its own) is cleaned to \<open>t\<close> itself, while
  the reply \<open>t\<close> alone is cleaned to its trimmed text. So the fenced and the unfenced
  reply are decoded alike, and both variants answer them alike, whenever \<open>t\<close> does not
  itself begin with a fence after trimming and \<^verbatim>\<open>JSON.parse\<close> gives the same on
  \<open>t\<close> and on its trimmed text (in particular when \<open>t\<close> has no white space around it).
\<close>

theorem fenced_reply_parsed_as_its_content:
  assumes "\<not> startsWith (js_trim t) (js ''```'')"
    and "JSON_parse (js_trim t) = JSON_parse t"
  shows "clean_response (fenced_json t) = t \<and>
         clean_response (fenced_bare t) = t \<and>
         clean_response t = js_trim t \<and>
         JSON_parse (clean_response (fenced_json t)) = JSON_parse (clean_response t) \<and>
         JSON_parse (clean_response (fenced_bare t)) = JSON_parse (clean_response t) \<and>
         handler1 (\<lambda>call. Content (fenced_json t)) req = handler1 (\<lambda>call. Content t) req \<and>
         handler1 (\<lambda>call. Content (fenced_bare t)) req = handler1 (\<lambda>call. Content t) req \<and>
         handler2 (\<lambda>call. Content (fenced_json t)) req = handler2 (\<lambda>call. Content t) req \<and>
         handler2 (\<lambda>call. Content (fenced_bare t)) req = handler2 (\<lambda>call. Content t) req"
proof -
  from assms(1) have "\<not> startsWith t (js ''```'')"
    using startsWith_trim by blast
  then have j: "clean_response (fenced_json t) = t"
    by (rule clean_fenced_json)
  have b: "clean_response (fenced_bare t) = t"
    by (rule clean_fenced_bare)
  have p: "clean_response t = js_trim t"
    using assms(1) by (rule clean_plain)
  have pj: "JSON_parse (clean_response (fenced_json t)) = JSON_parse (clean_response t)"
    by (simp add: j p assms(2))
  have pb: "JSON_parse (clean_response (fenced_bare t)) = JSON_parse (clean_response t)"
    by (simp add: b p assms(2))
  from j b p pj pb handler1_same_decoding [OF pj] handler1_same_decoding [OF pb]
    handler2_same_decoding [OF pj] handler2_same_decoding [OF pb]
  show ?thesis by blast
qed

text \<open>Witness: the array \<^verbatim>\<open>[{}]\<close> with a space on either side.\<close>

theorem fenced_reply_parsed_as_its_content_witness:
  "JSON_parse (js_trim (js '' [{}] '')) = Some (JArr [JObj []]) \<and>
   JSON_parse (js '' [{}] '') = Some (JArr [JObj []]) \<and>
   clean_response (fenced_json (js '' [{}] '')) = js '' [{}] '' \<and>
   clean_response (js '' [{}] '') = js ''[{}]'' \<and>
   handler1 (\<lambda>call. Content (fenced_json (js '' [{}] '')))
     \<lparr>req_topic = Some (js ''graphs''), req_numQuestions = Some (Fin 25), req_batch = Some (Fin 2),
      req_totalQuestions = Some (Fin 25)\<rparr> =
   handler1 (\<lambda>call. Content (js '' [{}] ''))
     \<lparr>req_topic = Some (js ''graphs''), req_numQuestions = Some (Fin 25), req_batch = Some (Fin 2),
      req_totalQuestions = Some (Fin 25)\<rparr>"
proof -
  have t: "js_trim (js '' [{}] '') = js ''[{}]''"
    by code_simp
  have n: "\<not> startsWith (js_trim (js '' [{}] '')) (js ''```'')"
    by code_simp
  have p1: "JSON_parse (js_trim (js '' [{}] '')) = Some (JArr [JObj []])"
    by code_simp
  have p2: "JSON_parse (js '' [{}] '') = Some (JArr [JObj []])"
    by code_simp
  from p1 p2 have e: "JSON_parse (js_trim (js '' [{}] '')) = JSON_parse (js '' [{}] '')"
    by simp
  note a = fenced_reply_parsed_as_its_content [OF n e, of
      "\<lparr>req_topic = Some (js ''graphs''), req_numQuestions = Some (Fin 25), req_batch = Some (Fin 2),
        req_totalQuestions = Some (Fin 25)\<rparr>"]
  from a have c1: "clean_response (fenced_json (js '' [{}] '')) = js '' [{}] ''"
    by blast
  from a t have c2: "clean_response (js '' [{}] '') = js ''[{}]''"
    by metis
  from a have h: "handler1 (\<lambda>call. Content (fenced_json (js '' [{}] '')))
     \<lparr>req_topic = Some (js ''graphs''), req_numQuestions = Some (Fin 25), req_batch = Some (Fin 2),
      req_totalQuestions = Some (Fin 25)\<rparr> =
   handler1 (\<lambda>call. Content (js '' [{}] ''))
     \<lparr>req_topic = Some (js ''graphs''), req_numQuestions = Some (Fin 25), req_batch = Some (Fin 2),
      req_totalQuestions = Some (Fin 25)\<rparr>"
    by blast
  from p1 p2 c1 c2 h show ?thesis
    by (intro conjI)
qed

text \<open>
  C8 as stated fails for both kinds of reply the hypotheses exclude. A reply that starts
  with a no-break space (U+00A0) is trimmed when it comes alone and decodes to
  \<^verbatim>\<open>[{}]\<close>, but inside a fence the no-break space stays, \<^verbatim>\<open>JSON.parse\<close> throws
  and the fallback question is returned. And a reply that is itself fenced decodes when
  it comes alone, but not inside one more bare fence, of which only the outer one is
  stripped.
\<close>

theorem fenced_reply_not_parsed_alike:
  "JSON_parse (clean_response (fenced_json (0xA0 # js ''[{}]''))) = None \<and>
   JSON_parse (clean_response (0xA0 # js ''[{}]'')) = Some (JArr [JObj []]) \<and>
   status (fst (handler1 (\<lambda>call. Content (0xA0 # js ''[{}]''))
     \<lparr>req_topic = Some (js ''graphs''), req_numQuestions = Some (Fin 25), req_batch = Some (Fin 2),
      req_totalQuestions = Some (Fin 25)\<rparr>)) = 200 \<and>
   field (questions_of (fst (handler1 (\<lambda>call. Content (0xA0 # js ''[{}]''))
     \<lparr>req_topic = Some (js ''graphs''), req_numQuestions = Some (Fin 25), req_batch = Some (Fin 2),
      req_totalQuestions = Some (Fin 25)\<rparr>)) ! 0) ''question'' = JStr [] \<and>
   field (questions_of (fst (handler1 (\<lambda>call. Content (fenced_json (0xA0 # js ''[{}]'')))
     \<lparr>req_topic = Some (js ''graphs''), req_numQuestions = Some (Fin 25), req_batch = Some (Fin 2),
      req_totalQuestions = Some (Fin 25)\<rparr>)) ! 0) ''question'' =
     JStr (js ''What is a key concept in graphs?'') \<and>
   JSON_parse (clean_response (fenced_bare (fenced_bare (js ''[{}]'')))) = None \<and>
   JSON_parse (clean_response (fenced_bare (js ''[{}]''))) = Some (JArr [JObj []])"
  by code_simp

end
